theory Spec2Isabelle
  imports Main
begin

section \<open>Python values\<close>

text \<open>
  A Python \<open>str\<close> is a sequence of code points, a \<open>bytes\<close> object a sequence of
  bytes (numbers below 256). Both are lists of naturals; \<open>str_of\<close> turns an ASCII
  literal into the \<open>str\<close> it denotes.
\<close>

type_synonym pystr = "nat list"
type_synonym pybytes = "nat list"
type_synonym path = "pystr list"

definition str_of :: "string \<Rightarrow> pystr" where
  "str_of s = map of_char s"

text \<open>
  The exceptions the modelled code raises. \<open>KeyboardInterrupt\<close> is the one that is
  not an instance of \<open>Exception\<close>: an \<open>except Exception\<close> clause lets it through.
\<close>

datatype exn =
    UnicodeEncodeError
  | UnicodeDecodeError
  | ValueError
  | BinasciiError
  | AssertionError
  | RuntimeError string
  | FileExistsError path
  | FileNotFoundError string
  | NotADirectoryError
  | OSError
  | CalledProcessError int
  | SerializationError string
  | TypeError
  | ModuleNotFoundError
  | EOFError
  | ZeroDivisionError
  | KeyboardInterrupt

fun is_Exception :: "exn \<Rightarrow> bool" where
  "is_Exception KeyboardInterrupt = False"
| "is_Exception _ = True"

text \<open>\<open>sep.join(xs)\<close>.\<close>

fun join :: "'a list \<Rightarrow> 'a list list \<Rightarrow> 'a list" where
  "join sep [] = []"
| "join sep [x] = x"
| "join sep (x # y # ys) = x @ sep @ join sep (y # ys)"

section \<open>The codecs of the standard library\<close>

subsection \<open>UTF-8: \<open>str.encode()\<close> and \<open>bytes.decode()\<close>\<close>

text \<open>
  \<open>str.encode()\<close> is strict UTF-8: it raises \<open>UnicodeEncodeError\<close> on a lone
  surrogate (U+D800 to U+DFFF).
\<close>

definition utf8_encode_cp :: "nat \<Rightarrow> pybytes option" where
  "utf8_encode_cp c =
     (if c < 0x80 then Some [c]
      else if c < 0x800 then Some [0xC0 + c div 64, 0x80 + c mod 64]
      else if c < 0x10000 then
        (if 0xD800 \<le> c \<and> c \<le> 0xDFFF then None
         else Some [0xE0 + c div 4096, 0x80 + (c div 64) mod 64, 0x80 + c mod 64])
      else if c < 0x110000 then
        Some [0xF0 + c div 262144, 0x80 + (c div 4096) mod 64,
              0x80 + (c div 64) mod 64, 0x80 + c mod 64]
      else None)"

fun utf8_encode :: "pystr \<Rightarrow> exn + pybytes" where
  "utf8_encode [] = Inr []"
| "utf8_encode (c # cs) =
     (case utf8_encode_cp c of
        None \<Rightarrow> Inl UnicodeEncodeError
      | Some bs \<Rightarrow>
          (case utf8_encode cs of Inl e \<Rightarrow> Inl e | Inr rest \<Rightarrow> Inr (bs @ rest)))"

text \<open>
  \<open>bytes.decode()\<close> is the strict UTF-8 decoder: the automaton of the well-formed
  byte sequences (no overlong form, no surrogate, nothing above U+10FFFF). Its state
  is the number of continuation bytes still expected, the bits read so far, and the
  range the next byte must lie in.
\<close>

definition emit :: "nat \<Rightarrow> exn + pystr \<Rightarrow> exn + pystr" where
  "emit c r = (case r of Inl e \<Rightarrow> Inl e | Inr s \<Rightarrow> Inr (c # s))"

fun utf8_decode_from :: "nat \<Rightarrow> nat \<Rightarrow> nat \<Rightarrow> nat \<Rightarrow> pybytes \<Rightarrow> exn + pystr" where
  "utf8_decode_from 0 a lo hi [] = Inr []"
| "utf8_decode_from (Suc n) a lo hi [] = Inl UnicodeDecodeError"
| "utf8_decode_from 0 a lo hi (b # bs) =
     (if b < 0x80 then emit b (utf8_decode_from 0 0 0 0 bs)
      else if 0xC2 \<le> b \<and> b \<le> 0xDF then utf8_decode_from (Suc 0) (b - 0xC0) 0x80 0xBF bs
      else if b = 0xE0 then utf8_decode_from (Suc (Suc 0)) 0 0xA0 0xBF bs
      else if b = 0xED then utf8_decode_from (Suc (Suc 0)) 13 0x80 0x9F bs
      else if 0xE1 \<le> b \<and> b \<le> 0xEF then
        utf8_decode_from (Suc (Suc 0)) (b - 0xE0) 0x80 0xBF bs
      else if b = 0xF0 then utf8_decode_from (Suc (Suc (Suc 0))) 0 0x90 0xBF bs
      else if 0xF1 \<le> b \<and> b \<le> 0xF3 then
        utf8_decode_from (Suc (Suc (Suc 0))) (b - 0xF0) 0x80 0xBF bs
      else if b = 0xF4 then utf8_decode_from (Suc (Suc (Suc 0))) 4 0x80 0x8F bs
      else Inl UnicodeDecodeError)"
| "utf8_decode_from (Suc n) a lo hi (b # bs) =
     (if lo \<le> b \<and> b \<le> hi then
        (if n = 0 then emit (a * 64 + (b - 0x80)) (utf8_decode_from 0 0 0 0 bs)
         else utf8_decode_from n (a * 64 + (b - 0x80)) 0x80 0xBF bs)
      else Inl UnicodeDecodeError)"

definition utf8_decode :: "pybytes \<Rightarrow> exn + pystr" where
  "utf8_decode bs = utf8_decode_from 0 0 0 0 bs"

subsection \<open>Base64: \<open>base64.b64encode\<close> and \<open>base64.b64decode\<close>\<close>

text \<open>The alphabet \<open>A-Z a-z 0-9 + /\<close> and the padding character \<open>=\<close>.\<close>

definition b64_pad :: nat where
  "b64_pad = 61"

definition b64_char :: "nat \<Rightarrow> nat" where
  "b64_char i =
     (if i < 26 then 65 + i
      else if i < 52 then 97 + (i - 26)
      else if i < 62 then 48 + (i - 52)
      else if i = 62 then 43
      else 47)"

definition b64_value :: "nat \<Rightarrow> nat option" where
  "b64_value c =
     (if 65 \<le> c \<and> c \<le> 90 then Some (c - 65)
      else if 97 \<le> c \<and> c \<le> 122 then Some (c - 97 + 26)
      else if 48 \<le> c \<and> c \<le> 57 then Some (c - 48 + 52)
      else if c = 43 then Some 62
      else if c = 47 then Some 63
      else None)"

text \<open>\<open>b64encode\<close>: three bytes become four characters, the last group is padded.\<close>

fun b64encode :: "pybytes \<Rightarrow> pybytes" where
  "b64encode [] = []"
| "b64encode [x] =
     [b64_char (x div 4), b64_char ((x mod 4) * 16), b64_pad, b64_pad]"
| "b64encode [x, y] =
     [b64_char (x div 4), b64_char ((x mod 4) * 16 + y div 16),
      b64_char ((y mod 16) * 4), b64_pad]"
| "b64encode (x # y # z # rest) =
     [b64_char (x div 4), b64_char ((x mod 4) * 16 + y div 16),
      b64_char ((y mod 16) * 4 + z div 64), b64_char (z mod 64)] @ b64encode rest"

text \<open>
  \<open>binascii.a2b_base64\<close> in its default (non-strict) mode, which \<open>b64decode\<close> calls:
  a loop over the characters with the state \<open>quad_pos\<close>, \<open>leftchar\<close>, \<open>pads\<close> and
  the bytes written so far. A character outside the alphabet is skipped; padding
  that completes a quad ends the input; a quad left open at the end is an error.
  The shifts and ors of the C code are written as arithmetic on the same bits.
\<close>

fun a2b_base64_loop :: "nat \<Rightarrow> nat \<Rightarrow> nat \<Rightarrow> pybytes \<Rightarrow> pybytes \<Rightarrow> exn + pybytes" where
  "a2b_base64_loop quad_pos leftchar pads out [] =
     (if quad_pos \<noteq> 0 then Inl BinasciiError else Inr out)"
| "a2b_base64_loop quad_pos leftchar pads out (c # cs) =
     (if c = b64_pad then
        (if quad_pos \<ge> 2 \<and> quad_pos + (pads + 1) \<ge> 4 then Inr out
         else a2b_base64_loop quad_pos leftchar
                (if quad_pos \<ge> 2 then pads + 1 else pads) out cs)
      else
        (case b64_value c of
           None \<Rightarrow> a2b_base64_loop quad_pos leftchar pads out cs
         | Some v \<Rightarrow>
             (if quad_pos = 0 then a2b_base64_loop 1 v 0 out cs
              else if quad_pos = 1 then
                a2b_base64_loop 2 (v mod 16) 0 (out @ [leftchar * 4 + v div 16]) cs
              else if quad_pos = 2 then
                a2b_base64_loop 3 (v mod 4) 0 (out @ [leftchar * 16 + v div 4]) cs
              else a2b_base64_loop 0 0 0 (out @ [leftchar * 64 + v]) cs)))"

definition a2b_base64 :: "pybytes \<Rightarrow> exn + pybytes" where
  "a2b_base64 data = a2b_base64_loop 0 0 0 [] data"

text \<open>
  \<open>b64decode\<close> of a \<open>str\<close> first encodes it as ASCII, and raises \<open>ValueError\<close> when
  that fails.
\<close>

definition b64decode :: "pystr \<Rightarrow> exn + pybytes" where
  "b64decode s = (if list_all (\<lambda>c. c < 128) s then a2b_base64 s else Inl ValueError)"

section \<open>The bridge's service address (connections/ipc/bridge.py)\<close>

datatype address = Bytes pybytes | Text pystr

text \<open>
  \<open>encode_service_address\<close>: a \<open>bytes\<close> address is decoded to text first; the text is
  encoded as UTF-8, then Base64, and the Base64 bytes are decoded to a \<open>str\<close>.
\<close>

definition encode_text :: "pystr \<Rightarrow> exn + pystr" where
  "encode_text s =
     (case utf8_encode s of
        Inl e \<Rightarrow> Inl e
      | Inr bs \<Rightarrow> utf8_decode (b64encode bs))"

fun encode_service_address :: "address \<Rightarrow> exn + pystr" where
  "encode_service_address (Bytes b) =
     (case utf8_decode b of Inl e \<Rightarrow> Inl e | Inr s \<Rightarrow> encode_text s)"
| "encode_service_address (Text s) = encode_text s"

text \<open>\<open>decode_service_address\<close> always returns a \<open>str\<close>.\<close>

definition decode_service_address :: "pystr \<Rightarrow> exn + pystr" where
  "decode_service_address a =
     (case b64decode a of Inl e \<Rightarrow> Inl e | Inr bs \<Rightarrow> utf8_decode bs)"

text \<open>The round trip, as a Python value or the exception raised on the way.\<close>

definition round_trip :: "address \<Rightarrow> exn + address" where
  "round_trip a =
     (case encode_service_address a of
        Inl e \<Rightarrow> Inl e
      | Inr enc \<Rightarrow>
          (case decode_service_address enc of Inl e \<Rightarrow> Inl e | Inr s \<Rightarrow> Inr (Text s)))"

section \<open>The file system and the helpers of backends/common.py\<close>

text \<open>
  A file system is a tree: a node is a plain file or a directory that maps names to
  nodes. A path is the list of its components below the root.
  \<open>Path.exists()\<close> is a successful lookup; \<open>a / b\<close> appends a component.
\<close>

datatype node = File | Dir "pystr \<Rightarrow> node option"

fun lookup :: "node \<Rightarrow> path \<Rightarrow> node option" where
  "lookup n [] = Some n"
| "lookup File (c # cs) = None"
| "lookup (Dir m) (c # cs) = (case m c of None \<Rightarrow> None | Some n \<Rightarrow> lookup n cs)"

definition path_exists :: "node \<Rightarrow> path \<Rightarrow> bool" where
  "path_exists root p = (lookup root p \<noteq> None)"

text \<open>Unlinking the entry a (non-empty) path names, with everything below it.\<close>

fun remove :: "node \<Rightarrow> path \<Rightarrow> node" where
  "remove n [] = n"
| "remove File (c # cs) = File"
| "remove (Dir m) [c] = Dir (m(c := None))"
| "remove (Dir m) (c # c' # cs) =
     (case m c of None \<Rightarrow> Dir m | Some n \<Rightarrow> Dir (m(c \<mapsto> remove n (c' # cs))))"

text \<open>
  The state the environment manager acts on: the file system, the calls the logging
  sink has received (\<open>self.log(template, *args, kind=...)\<close>), and the argument
  vectors of the subprocesses started so far.
\<close>

datatype arg = ArgPath path | ArgStr pystr

record env_log_call =
  template :: string
  log_args :: "arg list"
  kind :: string

record world =
  fs :: node
  env_sink :: "env_log_call list"
  spawned :: "arg list list"

text \<open>
  \<open>shutil.rmtree(path)\<close>: raises \<open>FileNotFoundError\<close> when nothing is at the path and
  \<open>NotADirectoryError\<close> when a plain file is; otherwise the directory goes with all
  its content. (On the root, everything goes and removing the root itself fails.)
\<close>

definition rmtree :: "path \<Rightarrow> world \<Rightarrow> world \<times> (exn + unit)" where
  "rmtree p w =
     (case lookup (fs w) p of
        None \<Rightarrow> (w, Inl (FileNotFoundError ''No such file or directory''))
      | Some File \<Rightarrow> (w, Inl NotADirectoryError)
      | Some (Dir m) \<Rightarrow>
          if p = [] then (w\<lparr>fs := Dir Map.empty\<rparr>, Inl OSError)
          else (w\<lparr>fs := remove (fs w) p\<rparr>, Inr ()))"

text \<open>
  \<open>rmdir_on_fail(path)\<close>, a context manager, applied to the block it guards: when
  the block raises an \<open>Exception\<close>, the path is removed if it exists and the
  exception is raised again (an exception of \<open>rmtree\<close> itself replaces it). Anything
  that is not an \<open>Exception\<close> passes the \<open>except\<close> clause untouched.
\<close>

definition rmdir_on_fail ::
  "path \<Rightarrow> (world \<Rightarrow> world \<times> (exn + 'a)) \<Rightarrow> world \<Rightarrow> world \<times> (exn + 'a)" where
  "rmdir_on_fail p body w =
     (case body w of
        (w', Inr v) \<Rightarrow> (w', Inr v)
      | (w', Inl e) \<Rightarrow>
          if is_Exception e then
            (if path_exists (fs w') p then
               (case rmtree p w' of
                  (w'', Inl e') \<Rightarrow> (w'', Inl e')
                | (w'', Inr _) \<Rightarrow> (w'', Inl e))
             else (w', Inl e))
          else (w', Inl e))"

text \<open>
  \<open>python_path_for(*search_paths)\<close>. The platform's \<open>os.pathsep\<close> and
  \<open>sysconfig.get_path("purelib", vars={"base": p})\<close> are parameters.
\<close>

definition python_path_for :: "pystr \<Rightarrow> (path \<Rightarrow> pystr) \<Rightarrow> path list \<Rightarrow> exn + pystr" where
  "python_path_for pathsep purelib search_paths =
     (if length search_paths \<ge> 1 then Inr (join pathsep (map purelib search_paths))
      else Inl AssertionError)"

section \<open>The conda backend (backends/conda.py)\<close>

text \<open>
  What the backend finds on the host it runs on: the cache directory of its context,
  the constants \<open>_CONDA_COMMAND\<close> and \<open>_ISOLATE_CONDA_HOME\<close>, \<open>shutil.which\<close>,
  \<open>hashlib.sha256(...).hexdigest()\<close>, and the package manager itself, an opaque
  subprocess: given its argument vector and the file system, it leaves a file system
  and ends in one of three ways.
\<close>

datatype proc_outcome = Exited int | SpawnFailed | Interrupted

record host =
  cache_dir :: path
  conda_command :: pystr
  isolate_conda_home :: "pystr option"
  which :: "pystr \<Rightarrow> pystr option \<Rightarrow> path option"
  sha256_hexdigest :: "pybytes \<Rightarrow> pystr"
  run_process :: "arg list \<Rightarrow> node \<Rightarrow> node \<times> proc_outcome"

record conda_environment =
  packages :: "pystr list"

text \<open>\<open>CondaEnvironment.key\<close>.\<close>

definition key :: "host \<Rightarrow> conda_environment \<Rightarrow> exn + pystr" where
  "key h env =
     (case utf8_encode (join (str_of '' '') (packages env)) of
        Inl e \<Rightarrow> Inl e
      | Inr bs \<Rightarrow> Inr (sha256_hexdigest h bs))"

text \<open>\<open>self.log(...)\<close> of the environment.\<close>

definition env_log :: "string \<Rightarrow> arg list \<Rightarrow> string \<Rightarrow> world \<Rightarrow> world" where
  "env_log t as k w = w\<lparr>env_sink := env_sink w @ [\<lparr>template = t, log_args = as, kind = k\<rparr>]\<rparr>"

text \<open>\<open>_get_conda_executable()\<close>: the loop over \<open>[_ISOLATE_CONDA_HOME, None]\<close>.\<close>

definition conda_not_found :: string where
  "conda_not_found =
     ''Could not find conda executable. If conda executable is not available by '' @
     ''default, please point isolate  to the path where conda binary is available '' @
     [CHR 0x27] @ ''ISOLATE_CONDA_HOME'' @ [CHR 0x27] @ ''.''"

fun find_conda :: "host \<Rightarrow> pystr option list \<Rightarrow> exn + path" where
  "find_conda h [] = Inl (FileNotFoundError conda_not_found)"
| "find_conda h (p # ps) =
     (case which h (conda_command h) p of
        Some conda_path \<Rightarrow> Inr conda_path
      | None \<Rightarrow> find_conda h ps)"

definition get_conda_executable :: "host \<Rightarrow> exn + path" where
  "get_conda_executable h = find_conda h [isolate_conda_home h, None]"

text \<open>
  \<open>subprocess.check_call(argv)\<close>: the subprocess runs; a non-zero exit status is a
  \<open>CalledProcessError\<close>, a failure to start it an \<open>OSError\<close>.
\<close>

definition check_call :: "host \<Rightarrow> arg list \<Rightarrow> world \<Rightarrow> world \<times> (exn + unit)" where
  "check_call h argv w =
     (case run_process h argv (fs w) of
        (fs', outcome) \<Rightarrow>
          (let w' = w\<lparr>fs := fs', spawned := spawned w @ [argv]\<rparr>
           in case outcome of
                Exited status \<Rightarrow>
                  if status = 0 then (w', Inr ()) else (w', Inl (CalledProcessError status))
              | SpawnFailed \<Rightarrow> (w', Inl OSError)
              | Interrupted \<Rightarrow> (w', Inl KeyboardInterrupt)))"

definition conda_argv :: "path \<Rightarrow> path \<Rightarrow> conda_environment \<Rightarrow> arg list" where
  "conda_argv conda_executable p env =
     [ArgPath conda_executable, ArgStr (str_of ''create''), ArgStr (str_of ''--yes''),
      ArgStr (str_of ''--prefix''), ArgPath p] @ map ArgStr (packages env)"

text \<open>The block of \<open>create\<close> that runs under \<open>rmdir_on_fail(path)\<close>.\<close>

definition creating_template :: string where
  "creating_template = ''Creating the environment at '' @ [CHR 0x27] @ ''{}'' @ [CHR 0x27]"

definition provision :: "host \<Rightarrow> conda_environment \<Rightarrow> path \<Rightarrow> world \<Rightarrow> world \<times> (exn + unit)" where
  "provision h env p w =
     (let w1 = env_log creating_template [ArgPath p] ''info'' w
      in case get_conda_executable h of
           Inl e \<Rightarrow> (w1, Inl e)
         | Inr conda_executable \<Rightarrow>
             (let w2 =
                (if packages env \<noteq> [] then
                   env_log ''Installing packages: {}''
                     [ArgStr (join (str_of '', '') (packages env))] ''info'' w1
                 else w1)
              in check_call h (conda_argv conda_executable p env) w2))"

text \<open>
  \<open>CondaEnvironment.create(exist_ok=...)\<close>. The \<open>FileExistsError\<close> it raises names
  the path in its message; the model keeps the path.
\<close>

definition create ::
  "host \<Rightarrow> conda_environment \<Rightarrow> bool \<Rightarrow> world \<Rightarrow> world \<times> (exn + path)" where
  "create h env exist_ok w =
     (case key h env of
        Inl e \<Rightarrow> (w, Inl e)
      | Inr k \<Rightarrow>
          (let p = cache_dir h @ [k]
           in if path_exists (fs w) p then
                (if exist_ok then (w, Inr p) else (w, Inl (FileExistsError p)))
              else
                (case rmdir_on_fail p (provision h env p) w of
                   (w', Inl e) \<Rightarrow> (w', Inl e)
                 | (w', Inr _) \<Rightarrow> (w', Inr p))))"

text \<open>\<open>CondaEnvironment.destroy(conn_info)\<close>.\<close>

definition destroy :: "path \<Rightarrow> world \<Rightarrow> world \<times> (exn + unit)" where
  "destroy conn_info w = rmtree conn_info w"

text \<open>
  The places the spec names inside a materialized environment: the marker file and
  the runtime binary.
\<close>

definition ready_marker :: "path \<Rightarrow> path" where
  "ready_marker p = p @ [str_of ''.ready'']"

definition runtime_bin :: "path \<Rightarrow> path" where
  "runtime_bin p = p @ [str_of ''bin'', str_of ''python'']"

section \<open>Loading a serialized object (connections/common.py)\<close>

text \<open>
  What a serialization backend's \<open>loads\<close> yields is a Python object; the model tells
  the exception instances, which \<open>raise\<close> accepts, from the other objects.
  A module may lack \<open>loads\<close> or \<open>dumps\<close>; \<open>importlib.import_module\<close>, a parameter,
  may raise.
\<close>

datatype 'v pyobject = Object 'v | ExceptionObject exn

record 'v serialization_module =
  loads :: "(pybytes \<Rightarrow> exn + 'v pyobject) option"
  dumps :: "('v pyobject \<Rightarrow> exn + pybytes) option"

text \<open>
  \<open>load_serialized_object(serialization_method, raw_object, was_it_raised=...)\<close>.
  Each of its two steps runs under \<open>_step(message)\<close>, which turns whatever the step
  raises into \<open>SerializationError("Error while " + message)\<close>; in the first step
  \<open>as_serialization_method\<close> raises when the module lacks \<open>loads\<close> or \<open>dumps\<close>.
  With \<open>was_it_raised\<close> set the loaded object is raised, not returned (and raising
  an object that is no exception is a \<open>TypeError\<close>).
\<close>

definition load_serialized_object ::
  "(string \<Rightarrow> exn + 'v serialization_module) \<Rightarrow> string \<Rightarrow> pybytes \<Rightarrow> bool
     \<Rightarrow> exn + 'v pyobject" where
  "load_serialized_object import_module serialization_method raw_object was_it_raised =
     (let preparing =
            ''Error while preparing the serialization backend ('' @ serialization_method @ '')''
      in case import_module serialization_method of
           Inl e \<Rightarrow> Inl (SerializationError preparing)
         | Inr backend \<Rightarrow>
             (case (loads backend, dumps backend) of
                (Some backend_loads, Some backend_dumps) \<Rightarrow>
                  (case backend_loads raw_object of
                     Inl e \<Rightarrow>
                       Inl (SerializationError ''Error while deserializing the given object'')
                   | Inr obj \<Rightarrow>
                       if was_it_raised then
                         (case obj of
                            ExceptionObject e \<Rightarrow> Inl e
                          | Object v \<Rightarrow> Inl TypeError)
                       else Inr obj)
              | _ \<Rightarrow> Inl (SerializationError preparing)))"

text \<open>
  Modelled from the spec: \<open>interface.from_grpc\<close> is missing from the sources. The
  result of a streamed message is a tagged payload (serialization method, bytes,
  \<open>was_it_raised\<close>), the one \<open>run\<close> builds with \<open>to_serialized_object\<close> for its request;
  decoding it is \<open>load_serialized_object\<close> on its three fields.
\<close>

record serialized_object =
  so_method :: string
  so_definition :: pybytes
  so_was_it_raised :: bool

definition from_grpc_result ::
  "(string \<Rightarrow> exn + 'v serialization_module) \<Rightarrow> serialized_object \<Rightarrow> exn + 'v pyobject" where
  "from_grpc_result import_module so =
     load_serialized_object import_module (so_method so) (so_definition so)
       (so_was_it_raised so)"

section \<open>The remote facade: \<open>IsolateServerConnection.run\<close> (backends/remote.py)\<close>

text \<open>
  \<open>run\<close> iterates over the response stream of \<open>stub.Run(request)\<close>. Every streamed
  message (a \<open>PartialResult\<close>) carries a list of raw logs, a raw result and the flag
  \<open>is_complete\<close>. The stream that \<open>run\<close> consumes is the finite list of the messages it
  yields, in order.

  \<open>interface.from_grpc\<close> is not part of the sources at hand; the two uses the loop makes
  of it (on a raw log, on a raw result) are parameters of the model. Like any call it
  may raise, and what it raises leaves the loop and \<open>run\<close> at once. A decoded log has
  the three fields the loop reads.
\<close>

record ('l, 'r) partial_result =
  logs :: "'l list"
  result :: 'r
  is_complete :: bool

record log =
  message :: string
  level :: string
  source :: string

text \<open>
  \<open>self.log(log.message, level=log.level, source=log.source)\<close> hands the three fields to
  the caller's sink. The sink is the list of the calls it has received, oldest first;
  it is threaded through \<open>run\<close> and returned with the outcome, since the calls made
  before a \<open>raise\<close> have happened all the same.
\<close>

record log_call =
  call_message :: string
  call_level :: string
  call_source :: string

type_synonym sink = "log_call list"

definition connection_log :: "sink \<Rightarrow> log \<Rightarrow> sink" where
  "connection_log s l =
     s @ [\<lparr>call_message = message l, call_level = level l, call_source = source l\<rparr>]"

text \<open>The inner loop \<open>for raw_log in result.logs\<close>.\<close>

fun forward_logs :: "('l \<Rightarrow> exn + log) \<Rightarrow> sink \<Rightarrow> 'l list \<Rightarrow> sink \<times> (exn + unit)" where
  "forward_logs from_grpc_log s [] = (s, Inr ())"
| "forward_logs from_grpc_log s (raw_log # rest) =
     (case from_grpc_log raw_log of
        Inl e \<Rightarrow> (s, Inl e)
      | Inr l \<Rightarrow> forward_logs from_grpc_log (connection_log s l) rest)"

text \<open>
  The outer loop \<open>for result in stub.Run(request)\<close>, with the sink and the list
  \<open>return_value\<close> as its state.
\<close>

fun run_loop ::
  "('l \<Rightarrow> exn + log) \<Rightarrow> ('r \<Rightarrow> exn + 'v) \<Rightarrow> sink \<Rightarrow> 'v list
     \<Rightarrow> ('l, 'r) partial_result list \<Rightarrow> sink \<times> (exn + 'v list)" where
  "run_loop from_grpc_log from_grpc s return_value [] = (s, Inr return_value)"
| "run_loop from_grpc_log from_grpc s return_value (res # rest) =
     (case forward_logs from_grpc_log s (logs res) of
        (s', Inl e) \<Rightarrow> (s', Inl e)
      | (s', Inr _) \<Rightarrow>
          if is_complete res then
            (case from_grpc (result res) of
               Inl e \<Rightarrow> (s', Inl e)
             | Inr v \<Rightarrow> run_loop from_grpc_log from_grpc s' (return_value @ [v]) rest)
          else run_loop from_grpc_log from_grpc s' return_value rest)"

definition no_result_message :: string where
  "no_result_message =
     ''No result object was received from the server'' @
     '' (it never set is_complete to True).''"

definition multiple_results_message :: string where
  "multiple_results_message =
     ''Multiple result objects were received from the server'' @
     '' (it set is_complete to True multiple times).''"

definition run ::
  "('l \<Rightarrow> exn + log) \<Rightarrow> ('r \<Rightarrow> exn + 'v) \<Rightarrow> sink \<Rightarrow> ('l, 'r) partial_result list
     \<Rightarrow> sink \<times> (exn + 'v)" where
  "run from_grpc_log from_grpc s stream =
     (case run_loop from_grpc_log from_grpc s [] stream of
        (s', Inl e) \<Rightarrow> (s', Inl e)
      | (s', Inr return_value) \<Rightarrow>
          if length return_value = 0 then (s', Inl (RuntimeError no_result_message))
          else if length return_value > 1 then
            (s', Inl (RuntimeError multiple_results_message))
          else (s', Inr (return_value ! 0)))"

text \<open>
  What the stream carries: its terminal messages and its logs, in stream order; and
  whether decoding raises nothing on it.
\<close>

definition terminal_frames :: "('l, 'r) partial_result list \<Rightarrow> ('l, 'r) partial_result list" where
  "terminal_frames stream = filter is_complete stream"

definition streamed_logs :: "('l, 'r) partial_result list \<Rightarrow> 'l list" where
  "streamed_logs stream = concat (map logs stream)"

definition as_call :: "log \<Rightarrow> log_call" where
  "as_call l = \<lparr>call_message = message l, call_level = level l, call_source = source l\<rparr>"

definition decodes :: "('a \<Rightarrow> exn + 'b) \<Rightarrow> 'a \<Rightarrow> bool" where
  "decodes from_grpc raw = (case from_grpc raw of Inl e \<Rightarrow> False | Inr v \<Rightarrow> True)"

definition stream_decodes ::
  "('l \<Rightarrow> exn + log) \<Rightarrow> ('r \<Rightarrow> exn + 'v) \<Rightarrow> ('l, 'r) partial_result list \<Rightarrow> bool" where
  "stream_decodes from_grpc_log from_grpc stream =
     (list_all (decodes from_grpc_log) (streamed_logs stream) \<and>
      list_all (\<lambda>res. decodes from_grpc (result res)) (terminal_frames stream))"

section \<open>Notions used in the proofs\<close>

text \<open>
  The code points a state of the UTF-8 decoder can still produce lie between two
  bounds; a state is sound when all of them are scalar values (below U+110000 and no
  surrogates).
\<close>

definition scalar_range :: "nat \<Rightarrow> nat \<Rightarrow> bool" where
  "scalar_range l h = (h < 0x110000 \<and> (h < 0xD800 \<or> 0xDFFF < l))"

fun state_ok :: "nat \<Rightarrow> nat \<Rightarrow> nat \<Rightarrow> nat \<Rightarrow> bool" where
  "state_ok 0 a lo hi = True"
| "state_ok (Suc 0) a lo hi =
     (0x80 \<le> lo \<and> hi \<le> 0xBF \<and> scalar_range (a * 64 + (lo - 0x80)) (a * 64 + (hi - 0x80)))"
| "state_ok (Suc (Suc 0)) a lo hi =
     (0x80 \<le> lo \<and> hi \<le> 0xBF \<and>
      scalar_range ((a * 64 + (lo - 0x80)) * 64) ((a * 64 + (hi - 0x80)) * 64 + 63))"
| "state_ok (Suc (Suc (Suc 0))) a lo hi =
     (0x80 \<le> lo \<and> hi \<le> 0xBF \<and>
      scalar_range ((a * 64 + (lo - 0x80)) * 4096) ((a * 64 + (hi - 0x80)) * 4096 + 4095))"
| "state_ok (Suc (Suc (Suc (Suc n)))) a lo hi = False"

text \<open>The state in which \<open>provision\<close> starts the subprocess.\<close>

definition logged :: "conda_environment \<Rightarrow> path \<Rightarrow> world \<Rightarrow> world" where
  "logged env p w =
     (let w1 = env_log creating_template [ArgPath p] ''info'' w
      in if packages env \<noteq> [] then
           env_log ''Installing packages: {}''
             [ArgStr (join (str_of '', '') (packages env))] ''info'' w1
         else w1)"

section \<open>Concrete inputs\<close>

text \<open>
  A serialization module in which one byte stands for an object: the byte 0 for a
  \<open>ZeroDivisionError\<close> instance, any other byte for itself; nothing can be loaded from
  no bytes. It is importable as \<open>pickle\<close>.
\<close>

definition demo_loads :: "pybytes \<Rightarrow> exn + nat pyobject" where
  "demo_loads bs =
     (case bs of
        [] \<Rightarrow> Inl EOFError
      | b # rest \<Rightarrow> if b = 0 then Inr (ExceptionObject ZeroDivisionError) else Inr (Object b))"

definition demo_dumps :: "nat pyobject \<Rightarrow> exn + pybytes" where
  "demo_dumps obj = (case obj of Object v \<Rightarrow> Inr [v] | ExceptionObject e \<Rightarrow> Inr [0])"

definition demo_import :: "string \<Rightarrow> exn + nat serialization_module" where
  "demo_import name =
     (if name = ''pickle'' then Inr \<lparr>loads = Some demo_loads, dumps = Some demo_dumps\<rparr>
      else Inl ModuleNotFoundError)"

text \<open>
  A decoder of raw logs, the decoder of results on that module, and streamed messages:
  one that carries logs only, and terminal ones whose result is a returned object or
  a raised exception.
\<close>

definition demo_log :: "string \<Rightarrow> exn + log" where
  "demo_log raw = Inr \<lparr>message = raw, level = ''INFO'', source = ''USER''\<rparr>"

definition demo_from_grpc :: "serialized_object \<Rightarrow> exn + nat pyobject" where
  "demo_from_grpc = from_grpc_result demo_import"

definition returned :: "nat \<Rightarrow> serialized_object" where
  "returned v = \<lparr>so_method = ''pickle'', so_definition = [v], so_was_it_raised = False\<rparr>"

definition raised :: serialized_object where
  "raised = \<lparr>so_method = ''pickle'', so_definition = [0], so_was_it_raised = True\<rparr>"

definition log_frame :: "string list \<Rightarrow> (string, serialized_object) partial_result" where
  "log_frame ls =
     \<lparr>logs = ls,
      result = \<lparr>so_method = [], so_definition = [], so_was_it_raised = False\<rparr>,
      is_complete = False\<rparr>"

definition terminal_frame ::
  "string list \<Rightarrow> serialized_object \<Rightarrow> (string, serialized_object) partial_result" where
  "terminal_frame ls so = \<lparr>logs = ls, result = so, is_complete = True\<rparr>"

text \<open>
  A host for the conda backend: its cache directory, a conda executable found on the
  search path, and \<open>hashlib\<close> tabulated at the one input the examples hash (the empty
  byte string, whose SHA-256 digest is the one given). The package manager is left
  open.
\<close>

definition demo_cache_dir :: path where
  "demo_cache_dir = [str_of ''cache'', str_of ''conda'']"

definition empty_digest :: pystr where
  "empty_digest =
     str_of ''e3b0c44298fc1c149afbf4c8996fb92427ae41e4649b934ca495991b7852b855''"

definition demo_sha256 :: "pybytes \<Rightarrow> pystr" where
  "demo_sha256 bs = (if bs = [] then empty_digest else [])"

definition demo_conda :: path where
  "demo_conda = [str_of ''opt'', str_of ''conda'', str_of ''bin'', str_of ''conda'']"

definition demo_which :: "pystr \<Rightarrow> pystr option \<Rightarrow> path option" where
  "demo_which cmd p = (if p = None then Some demo_conda else None)"

definition demo_host :: "(arg list \<Rightarrow> node \<Rightarrow> node \<times> proc_outcome) \<Rightarrow> host" where
  "demo_host package_manager =
     \<lparr>cache_dir = demo_cache_dir, conda_command = str_of ''conda'',
      isolate_conda_home = None, which = demo_which, sha256_hexdigest = demo_sha256,
      run_process = package_manager\<rparr>"

definition no_packages :: conda_environment where
  "no_packages = \<lparr>packages = []\<rparr>"

definition demo_slot :: path where
  "demo_slot = demo_cache_dir @ [empty_digest]"

text \<open>
  File systems that hold the cache directory and, in the slot of \<open>no_packages\<close>,
  nothing or the given node; and the state of a controller that has logged and
  spawned nothing yet.
\<close>

definition cache_with :: "node option \<Rightarrow> node" where
  "cache_with slot =
     Dir (Map.empty(str_of ''cache'' \<mapsto>
       Dir (Map.empty(str_of ''conda'' \<mapsto> Dir (Map.empty(empty_digest := slot))))))"

definition demo_world :: "node option \<Rightarrow> world" where
  "demo_world slot = \<lparr>fs = cache_with slot, env_sink = [], spawned = []\<rparr>"

text \<open>
  Four package managers: one that fails with status 1 after it has begun to fill
  the prefix, one that is interrupted from the keyboard at that point, one that exits
  with status 0 and leaves an empty prefix, and one that exits with status 0 and
  leaves \<open>bin/python\<close> in the prefix.
\<close>

definition failing_conda :: "arg list \<Rightarrow> node \<Rightarrow> node \<times> proc_outcome" where
  "failing_conda argv root =
     (cache_with (Some (Dir (Map.empty(str_of ''conda-meta'' \<mapsto> Dir Map.empty)))), Exited 1)"



definition bare_conda :: "arg list \<Rightarrow> node \<Rightarrow> node \<times> proc_outcome" where
  "bare_conda argv root = (cache_with (Some (Dir Map.empty)), Exited 0)"

definition python_tree :: node where
  "python_tree = Dir (Map.empty(str_of ''bin'' \<mapsto> Dir (Map.empty(str_of ''python'' \<mapsto> File))))"

definition working_conda :: "arg list \<Rightarrow> node \<Rightarrow> node \<times> proc_outcome" where
  "working_conda argv root = (cache_with (Some python_tree), Exited 0)"

text \<open>
  The state after a first \<open>create\<close> of \<open>no_packages\<close> on such a host has run the
  package manager: one log, one subprocess, and the slot as the package manager left it.
\<close>

definition demo_logged :: "node option \<Rightarrow> world" where
  "demo_logged slot =
     \<lparr>fs = cache_with slot,
      env_sink = [\<lparr>template = creating_template, log_args = [ArgPath demo_slot], kind = ''info''\<rparr>],
      spawned = [conda_argv demo_conda demo_slot no_packages]\<rparr>"

section \<open>The codecs: round trips\<close>

subsection \<open>UTF-8\<close>

lemma utf8_encode_cp_bytes:
  "utf8_encode_cp c = Some bs \<Longrightarrow> \<forall>b\<in>set bs. b < 256"
  by (auto simp: utf8_encode_cp_def split: if_splits)

lemma decode_two_bytes:
  assumes "2 \<le> q" "q < 32" "r < 64"
  shows "utf8_decode_from 0 a lo hi ((0xC0 + q) # (0x80 + r) # rest) =
         emit (q * 64 + r) (utf8_decode_from 0 0 0 0 rest)"
  using assms by simp

lemma decode_three_bytes:
  assumes "q < 16" "r1 < 64" "r2 < 64" "q = 0 \<longrightarrow> 32 \<le> r1" "q = 13 \<longrightarrow> r1 < 32"
  shows "utf8_decode_from 0 a lo hi ((0xE0 + q) # (0x80 + r1) # (0x80 + r2) # rest) =
         emit ((q * 64 + r1) * 64 + r2) (utf8_decode_from 0 0 0 0 rest)"
proof -
  consider "q = 0" | "q = 13" | "q \<noteq> 0" "q \<noteq> 13" by blast
  then show ?thesis
  proof cases
    case 1
    with assms show ?thesis by simp
  next
    case 2
    with assms show ?thesis by simp
  next
    case 3
    with assms show ?thesis by simp
  qed
qed

lemma decode_four_bytes:
  assumes "q < 5" "r1 < 64" "r2 < 64" "r3 < 64" "q = 0 \<longrightarrow> 16 \<le> r1" "q = 4 \<longrightarrow> r1 < 16"
  shows "utf8_decode_from 0 a lo hi
           ((0xF0 + q) # (0x80 + r1) # (0x80 + r2) # (0x80 + r3) # rest) =
         emit (((q * 64 + r1) * 64 + r2) * 64 + r3) (utf8_decode_from 0 0 0 0 rest)"
proof -
  consider "q = 0" | "q = 4" | "q \<noteq> 0" "q \<noteq> 4" by blast
  then show ?thesis
  proof cases
    case 1
    with assms show ?thesis by simp
  next
    case 2
    with assms show ?thesis by simp
  next
    case 3
    with assms show ?thesis by simp
  qed
qed

lemma div_4096: "(c::nat) div 4096 = c div 64 div 64"
  by (simp add: div_mult2_eq [symmetric])

lemma div_262144: "(c::nat) div 262144 = c div 64 div 64 div 64"
  by (simp add: div_mult2_eq [symmetric])

lemma decode_encoded_three:
  assumes "0x800 \<le> c" "c < 0x10000" "\<not> (0xD800 \<le> c \<and> c \<le> 0xDFFF)"
  shows "utf8_decode_from 0 a lo hi
           ([0xE0 + c div 4096, 0x80 + (c div 64) mod 64, 0x80 + c mod 64] @ rest) =
         emit c (utf8_decode_from 0 0 0 0 rest)"
proof -
  define d where "d = c div 64"
  define q where "q = d div 64"
  define r1 where "r1 = d mod 64"
  define r2 where "r2 = c mod 64"
  have c: "c = d * 64 + r2" by (simp add: d_def r2_def)
  have d: "d = q * 64 + r1" by (simp add: q_def r1_def)
  have r: "r1 < 64" "r2 < 64" by (simp_all add: r1_def r2_def)
  have dd: "32 \<le> d" "d < 1024" "d < 864 \<or> 895 < d" using assms r unfolding c by arith+
  have q: "q < 16" "q = 0 \<longrightarrow> 32 \<le> r1" "q = 13 \<longrightarrow> r1 < 32"
    using dd r unfolding d by arith+
  have "c div 4096 = q" by (simp add: div_4096 q_def d_def)
  moreover have "(q * 64 + r1) * 64 + r2 = c" by (simp add: c d)
  ultimately show ?thesis
    using decode_three_bytes [OF q(1) r q(2,3), of a lo hi rest]
    by (simp add: d_def [symmetric] r1_def [symmetric] r2_def [symmetric])
qed


lemma decode_encoded_two:
  assumes "0x80 \<le> c" "c < 0x800"
  shows "utf8_decode_from 0 a lo hi ([0xC0 + c div 64, 0x80 + c mod 64] @ rest) =
         emit c (utf8_decode_from 0 0 0 0 rest)"
proof -
  define q where "q = c div 64"
  define r where "r = c mod 64"
  have c: "c = q * 64 + r" by (simp add: q_def r_def)
  have r: "r < 64" by (simp add: r_def)
  have q: "2 \<le> q" "q < 32" using assms r unfolding c by arith+
  show ?thesis using decode_two_bytes [OF q r, of a lo hi rest]
    by (simp add: c [symmetric] q_def [symmetric] r_def [symmetric])
qed

lemma decode_encoded_four:
  assumes "0x10000 \<le> c" "c < 0x110000"
  shows "utf8_decode_from 0 a lo hi
           ([0xF0 + c div 262144, 0x80 + (c div 4096) mod 64,
             0x80 + (c div 64) mod 64, 0x80 + c mod 64] @ rest) =
         emit c (utf8_decode_from 0 0 0 0 rest)"
proof -
  define d where "d = c div 64"
  define e where "e = d div 64"
  define q where "q = e div 64"
  define r1 where "r1 = e mod 64"
  define r2 where "r2 = d mod 64"
  define r3 where "r3 = c mod 64"
  have c: "c = d * 64 + r3" by (simp add: d_def r3_def)
  have d: "d = e * 64 + r2" by (simp add: e_def r2_def)
  have e: "e = q * 64 + r1" by (simp add: q_def r1_def)
  have r: "r1 < 64" "r2 < 64" "r3 < 64" by (simp_all add: r1_def r2_def r3_def)
  have dd: "1024 \<le> d" "d < 17408" using assms r unfolding c by arith+
  have ee: "16 \<le> e" "e < 272" using dd r unfolding d by arith+
  have q: "q < 5" "q = 0 \<longrightarrow> 16 \<le> r1" "q = 4 \<longrightarrow> r1 < 16"
    using ee r unfolding e by arith+
  have "c div 262144 = q" by (simp add: div_262144 q_def e_def d_def)
  moreover have "c div 4096 = e" by (simp add: div_4096 e_def d_def)
  moreover have "((q * 64 + r1) * 64 + r2) * 64 + r3 = c" by (simp add: c d e)
  ultimately show ?thesis
    using decode_four_bytes [OF q(1) r q(2,3), of a lo hi rest]
    by (simp add: d_def [symmetric] r1_def [symmetric] r2_def [symmetric]
        r3_def [symmetric])
qed

lemma utf8_decode_encode_cp:
  assumes "utf8_encode_cp c = Some bs"
  shows "utf8_decode_from 0 a lo hi (bs @ rest) = emit c (utf8_decode_from 0 0 0 0 rest)"
proof -
  consider (one) "c < 0x80"
    | (two) "0x80 \<le> c" "c < 0x800"
    | (three) "0x800 \<le> c" "c < 0x10000"
    | (four) "0x10000 \<le> c"
    by linarith
  then show ?thesis
  proof cases
    case one
    with assms have "bs = [c]" by (simp add: utf8_encode_cp_def)
    with one show ?thesis by simp
  next
    case two
    with assms have "bs = [0xC0 + c div 64, 0x80 + c mod 64]"
      by (simp add: utf8_encode_cp_def)
    with decode_encoded_two [OF two] show ?thesis by simp
  next
    case three
    with assms have ns: "\<not> (0xD800 \<le> c \<and> c \<le> 0xDFFF)"
      by (simp add: utf8_encode_cp_def split: if_splits)
    with three assms
    have "bs = [0xE0 + c div 4096, 0x80 + (c div 64) mod 64, 0x80 + c mod 64]"
      by (simp add: utf8_encode_cp_def)
    with decode_encoded_three [OF three ns] show ?thesis by simp
  next
    case four
    with assms have lt: "c < 0x110000"
      by (simp add: utf8_encode_cp_def split: if_splits)
    with four assms
    have "bs = [0xF0 + c div 262144, 0x80 + (c div 4096) mod 64,
             0x80 + (c div 64) mod 64, 0x80 + c mod 64]"
      by (simp add: utf8_encode_cp_def)
    with decode_encoded_four [OF four lt] show ?thesis by simp
  qed
qed

lemma utf8_decode_encode:
  "utf8_encode s = Inr bs \<Longrightarrow> utf8_decode_from 0 a lo hi bs = Inr s"
proof (induction s arbitrary: bs a lo hi)
  case Nil
  then show ?case by simp
next
  case (Cons c cs)
  from Cons.prems obtain b rest where
    b: "utf8_encode_cp c = Some b" and rest: "utf8_encode cs = Inr rest" and bs: "bs = b @ rest"
    by (auto split: option.splits sum.splits)
  have "utf8_decode_from 0 0 0 0 rest = Inr cs" using Cons.IH [OF rest] .
  then show ?case using utf8_decode_encode_cp [OF b, of a lo hi rest]
    by (simp add: bs emit_def)
qed

lemma utf8_encode_bytes:
  "utf8_encode s = Inr bs \<Longrightarrow> \<forall>b\<in>set bs. b < 256"
proof (induction s arbitrary: bs)
  case Nil
  then show ?case by simp
next
  case (Cons c cs)
  from Cons.prems obtain b rest where
    b: "utf8_encode_cp c = Some b" and rest: "utf8_encode cs = Inr rest" and bs: "bs = b @ rest"
    by (auto split: option.splits sum.splits)
  show ?case using Cons.IH [OF rest] utf8_encode_cp_bytes [OF b] by (auto simp: bs)
qed

lemma utf8_decode_ascii:
  "\<forall>b\<in>set bs. b < 128 \<Longrightarrow> utf8_decode_from 0 a lo hi bs = Inr bs"
  by (induction bs arbitrary: a lo hi) (simp_all add: emit_def)

lemma encodable: "c < 0x110000 \<Longrightarrow> c < 0xD800 \<or> 0xDFFF < c \<Longrightarrow> utf8_encode_cp c \<noteq> None"
  by (auto simp: utf8_encode_cp_def)

lemma final_ok:
  assumes "state_ok (Suc 0) a lo hi" "lo \<le> b" "b \<le> hi"
  shows "utf8_encode_cp (a * 64 + (b - 0x80)) \<noteq> None"
proof -
  have "a * 64 + (b - 0x80) < 0x110000"
    "a * 64 + (b - 0x80) < 0xD800 \<or> 0xDFFF < a * 64 + (b - 0x80)"
    using assms by (auto simp: scalar_range_def)
  then show ?thesis by (rule encodable)
qed

lemma step_ok:
  assumes "state_ok (Suc (Suc n)) a lo hi" "lo \<le> b" "b \<le> hi"
  shows "state_ok (Suc n) (a * 64 + (b - 0x80)) 0x80 0xBF"
proof (cases n)
  case 0
  with assms show ?thesis by (auto simp: scalar_range_def)
next
  case (Suc m)
  show ?thesis
  proof (cases m)
    case 0
    with Suc assms show ?thesis by (auto simp: scalar_range_def)
  next
    case (Suc k)
    with \<open>n = Suc m\<close> assms show ?thesis by simp
  qed
qed

lemma start_ok:
  shows "0xC2 \<le> b \<Longrightarrow> b \<le> 0xDF \<Longrightarrow> state_ok (Suc 0) (b - 0xC0) 0x80 0xBF"
    and "state_ok (Suc (Suc 0)) 0 0xA0 0xBF"
    and "state_ok (Suc (Suc 0)) 13 0x80 0x9F"
    and "0xE1 \<le> b \<Longrightarrow> b \<le> 0xEF \<Longrightarrow> b \<noteq> 0xED \<Longrightarrow>
         state_ok (Suc (Suc 0)) (b - 0xE0) 0x80 0xBF"
    and "state_ok (Suc (Suc (Suc 0))) 0 0x90 0xBF"
    and "0xF1 \<le> b \<Longrightarrow> b \<le> 0xF3 \<Longrightarrow> state_ok (Suc (Suc (Suc 0))) (b - 0xF0) 0x80 0xBF"
    and "state_ok (Suc (Suc (Suc 0))) 4 0x80 0x8F"
  by (auto simp: scalar_range_def)

lemma emit_Inr: "emit c r = Inr s \<longleftrightarrow> (\<exists>t. r = Inr t \<and> s = c # t)"
  by (auto simp: emit_def split: sum.splits)

lemma utf8_decode_from_encodable:
  "state_ok n a lo hi \<Longrightarrow> utf8_decode_from n a lo hi bs = Inr s \<Longrightarrow>
   \<forall>c\<in>set s. utf8_encode_cp c \<noteq> None"
proof (induction n a lo hi bs arbitrary: s rule: utf8_decode_from.induct)
  case (1 a lo hi)
  then show ?case by simp
next
  case (2 n a lo hi)
  then show ?case by simp
next
  case (3 a lo hi b bs)
  have ok0: "state_ok 0 0 0 0" by simp
  consider (ascii) "b < 0x80"
    | (two) "\<not> b < 0x80" "0xC2 \<le> b \<and> b \<le> 0xDF"
    | (e0) "b = 0xE0" | (ed) "b = 0xED"
    | (three) "0xE1 \<le> b \<and> b \<le> 0xEF" "b \<noteq> 0xED"
    | (f0) "b = 0xF0"
    | (four) "0xF1 \<le> b \<and> b \<le> 0xF3"
    | (f4) "b = 0xF4"
    | (bad) "\<not> b < 0x80" "\<not> (0xC2 \<le> b \<and> b \<le> 0xDF)" "\<not> (0xE0 \<le> b \<and> b \<le> 0xEF)"
        "\<not> (0xF0 \<le> b \<and> b \<le> 0xF4)"
    by linarith
  then show ?case
  proof cases
    case ascii
    with "3.prems" obtain t where t: "utf8_decode_from 0 0 0 0 bs = Inr t" and s: "s = b # t"
      by (auto simp: emit_Inr)
    have "utf8_encode_cp b \<noteq> None" using ascii by (simp add: utf8_encode_cp_def)
    with "3.IH"(1) [OF ascii ok0 t] show ?thesis by (simp add: s)
  next
    case two
    with "3.prems" have "utf8_decode_from (Suc 0) (b - 0xC0) 0x80 0xBF bs = Inr s" by simp
    with "3.IH"(2) [OF two] start_ok(1) two(2) show ?thesis by blast
  next
    case e0
    with "3.prems" have "utf8_decode_from (Suc (Suc 0)) 0 0xA0 0xBF bs = Inr s" by simp
    with "3.IH"(3) [OF _ _ e0] start_ok(2) e0 show ?thesis by simp
  next
    case ed
    with "3.prems" have "utf8_decode_from (Suc (Suc 0)) 13 0x80 0x9F bs = Inr s" by simp
    with "3.IH"(4) [OF _ _ _ ed] start_ok(3) ed show ?thesis by simp
  next
    case three
    with "3.prems" have "utf8_decode_from (Suc (Suc 0)) (b - 0xE0) 0x80 0xBF bs = Inr s"
      by simp
    with "3.IH"(5) [OF _ _ _ _ three(1)] start_ok(4) three show ?thesis by simp
  next
    case f0
    with "3.prems" have "utf8_decode_from (Suc (Suc (Suc 0))) 0 0x90 0xBF bs = Inr s" by simp
    with "3.IH"(6) [OF _ _ _ _ _ f0] start_ok(5) f0 show ?thesis by simp
  next
    case four
    with "3.prems" have
      "utf8_decode_from (Suc (Suc (Suc 0))) (b - 0xF0) 0x80 0xBF bs = Inr s" by simp
    with "3.IH"(7) [OF _ _ _ _ _ _ four] start_ok(6) four show ?thesis by simp
  next
    case f4
    with "3.prems" have "utf8_decode_from (Suc (Suc (Suc 0))) 4 0x80 0x8F bs = Inr s" by simp
    with "3.IH"(8) [OF _ _ _ _ _ _ _ f4] start_ok(7) f4 show ?thesis by simp
  next
    case bad
    with "3.prems" show ?thesis by (simp split: if_splits)
  qed
next
  case (4 n a lo hi b bs)
  from "4.prems"(2) have range: "lo \<le> b \<and> b \<le> hi" by (simp split: if_splits)
  show ?case
  proof (cases "n = 0")
    case True
    with "4.prems"(2) range obtain t where
      t: "utf8_decode_from 0 0 0 0 bs = Inr t" and s: "s = (a * 64 + (b - 0x80)) # t"
      by (auto simp: emit_Inr)
    have ok1: "state_ok (Suc 0) a lo hi" using "4.prems"(1) unfolding True .
    have "utf8_encode_cp (a * 64 + (b - 0x80)) \<noteq> None"
      using final_ok [OF ok1] range by blast
    with "4.IH"(1) [OF range True _ t] show ?thesis by (simp add: s)
  next
    case False
    then obtain m where m: "n = Suc m" by (cases n) auto
    with "4.prems"(2) range have
      dec: "utf8_decode_from n (a * 64 + (b - 0x80)) 0x80 0xBF bs = Inr s" by simp
    have ok2: "state_ok (Suc (Suc m)) a lo hi" using "4.prems"(1) unfolding m .
    have "state_ok n (a * 64 + (b - 0x80)) 0x80 0xBF"
      using step_ok [OF ok2] range unfolding m by blast
    with "4.IH"(2) [OF range False _ dec] show ?thesis by simp
  qed
qed

subsection \<open>Base64\<close>

lemma b64_value_char: "i < 64 \<Longrightarrow> b64_value (b64_char i) = Some i"
  unfolding b64_value_def b64_char_def by (simp; arith)

lemma b64_char_not_pad: "b64_char i \<noteq> b64_pad"
  unfolding b64_char_def b64_pad_def by (simp; arith)

lemma b64_char_ascii: "b64_char i < 128"
  unfolding b64_char_def by (simp; arith)

lemma sextets:
  assumes "x < 256" "y < 256" "z < (256::nat)"
  shows "x div 4 < 64" "(x mod 4) * 16 + y div 16 < 64" "(y mod 16) * 4 + z div 64 < 64"
    "z mod 64 < 64" "(x mod 4) * 16 < 64" "(y mod 16) * 4 < 64"
  using assms by arith+


lemma div_mod_pack:
  fixes a b n :: nat
  assumes "b < n"
  shows "(a * n + b) div n = a" "(a * n + b) mod n = b"
  using assms by simp_all

lemma octets:
  assumes "x < 256" "y < 256" "z < (256::nat)"
  shows "x div 4 * 4 + ((x mod 4) * 16 + y div 16) div 16 = x"
    "(((x mod 4) * 16 + y div 16) mod 16) * 16 + ((y mod 16) * 4 + z div 64) div 4 = y"
    "(((y mod 16) * 4 + z div 64) mod 4) * 64 + z mod 64 = z"
    "x div 4 * 4 + ((x mod 4) * 16) div 16 = x"
    "(((x mod 4) * 16 + y div 16) mod 16) * 16 + ((y mod 16) * 4) div 4 = y"
proof -
  have y16: "y div 16 < 16" and z64: "z div 64 < 4" using assms by arith+
  note facts = div_mod_pack [OF y16] div_mod_pack [OF z64] mod_less [OF y16] mod_less [OF z64]
  show "x div 4 * 4 + ((x mod 4) * 16 + y div 16) div 16 = x"
    by (simp add: facts)
  show "(((x mod 4) * 16 + y div 16) mod 16) * 16 + ((y mod 16) * 4 + z div 64) div 4 = y"
    by (simp add: facts)
  show "(((y mod 16) * 4 + z div 64) mod 4) * 64 + z mod 64 = z"
    by (simp add: facts)
  show "x div 4 * 4 + ((x mod 4) * 16) div 16 = x"
    by simp
  show "(((x mod 4) * 16 + y div 16) mod 16) * 16 + ((y mod 16) * 4) div 4 = y"
    by (simp add: facts)
qed

lemma a2b_quad:
  assumes "v0 < 64" "v1 < 64" "v2 < 64" "v3 < 64"
  shows "a2b_base64_loop 0 0 0 out
           (b64_char v0 # b64_char v1 # b64_char v2 # b64_char v3 # rest) =
         a2b_base64_loop 0 0 0
           (out @ [v0 * 4 + v1 div 16, (v1 mod 16) * 16 + v2 div 4, (v2 mod 4) * 64 + v3])
           rest"
  using assms by (simp add: b64_value_char b64_char_not_pad)

lemma a2b_two_pads:
  assumes "v0 < 64" "v1 < 64"
  shows "a2b_base64_loop 0 0 0 out [b64_char v0, b64_char v1, b64_pad, b64_pad] =
         Inr (out @ [v0 * 4 + v1 div 16])"
  using assms by (simp add: b64_value_char b64_char_not_pad)

lemma a2b_one_pad:
  assumes "v0 < 64" "v1 < 64" "v2 < 64"
  shows "a2b_base64_loop 0 0 0 out [b64_char v0, b64_char v1, b64_char v2, b64_pad] =
         Inr (out @ [v0 * 4 + v1 div 16, (v1 mod 16) * 16 + v2 div 4])"
  using assms by (simp add: b64_value_char b64_char_not_pad)

lemma a2b_b64encode:
  "\<forall>b\<in>set bs. b < 256 \<Longrightarrow> a2b_base64_loop 0 0 0 out (b64encode bs) = Inr (out @ bs)"
proof (induction bs arbitrary: out rule: b64encode.induct)
  case 1
  then show ?case by simp
next
  case (2 x)
  then have x: "x < 256" by simp
  show ?case
    using a2b_two_pads [OF sextets(1,5) [OF x x x], of out] octets(4) [OF x x x]
    by simp
next
  case (3 x y)
  then have x: "x < 256" and y: "y < 256" by simp_all
  show ?case
    using a2b_one_pad [OF sextets(1,2,6) [OF x y y], of out] octets(1,5) [OF x y y]
    by simp
next
  case (4 x y z rest)
  then have x: "x < 256" and y: "y < 256" and z: "z < 256"
    and rest: "\<forall>b\<in>set rest. b < 256" by simp_all
  have "a2b_base64_loop 0 0 0 out (b64encode (x # y # z # rest)) =
        a2b_base64_loop 0 0 0 (out @ [x, y, z]) (b64encode rest)"
    using a2b_quad [OF sextets(1,2,3,4) [OF x y z], of out "b64encode rest"]
      octets(1,2,3) [OF x y z]
    by simp
  then show ?case using "4.IH" [OF rest, of "out @ [x, y, z]"] by simp
qed

lemma b64encode_ascii: "\<forall>c\<in>set (b64encode bs). c < 128"
  by (induction bs rule: b64encode.induct) (simp_all add: b64_char_ascii b64_pad_def)

lemma b64decode_b64encode:
  "\<forall>b\<in>set bs. b < 256 \<Longrightarrow> b64decode (b64encode bs) = Inr bs"
  using a2b_b64encode [of bs "[]"] b64encode_ascii [of bs]
  by (simp add: b64decode_def a2b_base64_def list_all_iff)

section \<open>The service address: what the round trip returns\<close>

lemma utf8_encode_total:
  "\<forall>c\<in>set s. utf8_encode_cp c \<noteq> None \<Longrightarrow> \<exists>bs. utf8_encode s = Inr bs"
  by (induction s) auto

lemma utf8_decode_encodable:
  assumes "utf8_decode b = Inr s"
  shows "\<exists>bs. utf8_encode s = Inr bs"
proof -
  have "state_ok 0 0 0 0" by simp
  then have "\<forall>c\<in>set s. utf8_encode_cp c \<noteq> None"
    using assms unfolding utf8_decode_def by (rule utf8_decode_from_encodable)
  then show ?thesis by (rule utf8_encode_total)
qed

lemma encode_text_ok:
  "utf8_encode s = Inr bs \<Longrightarrow> encode_text s = Inr (b64encode bs)"
  using utf8_decode_ascii [OF b64encode_ascii, of 0 0 0 bs]
  by (simp add: encode_text_def utf8_decode_def)

lemma decode_encode_text:
  assumes "utf8_encode s = Inr bs"
  shows "decode_service_address (b64encode bs) = Inr s"
  using b64decode_b64encode [OF utf8_encode_bytes [OF assms]]
    utf8_decode_encode [OF assms, of 0 0 0]
  by (simp add: decode_service_address_def utf8_decode_def)

lemma round_trip_text:
  "round_trip (Text s) = (case utf8_encode s of Inl e \<Rightarrow> Inl e | Inr bs \<Rightarrow> Inr (Text s))"
proof (cases "utf8_encode s")
  case (Inl e)
  then show ?thesis by (simp add: round_trip_def encode_text_def)
next
  case (Inr bs)
  then show ?thesis
    using encode_text_ok [OF Inr] decode_encode_text [OF Inr] by (simp add: round_trip_def)
qed

lemma round_trip_bytes:
  "round_trip (Bytes b) = (case utf8_decode b of Inl e \<Rightarrow> Inl e | Inr s \<Rightarrow> Inr (Text s))"
proof (cases "utf8_decode b")
  case (Inl e)
  then show ?thesis by (simp add: round_trip_def)
next
  case (Inr s)
  from utf8_decode_encodable [OF Inr] obtain bs where bs: "utf8_encode s = Inr bs" ..
  show ?thesis
    using Inr encode_text_ok [OF bs] decode_encode_text [OF bs] by (simp add: round_trip_def)
qed

text \<open>
  Claim C5, as amended. The round trip of a text address that UTF-8 can encode is the
  address itself (on a lone surrogate the encoding raises). The round trip of a
  \<open>bytes\<close> address that is well-formed UTF-8 is the text it decodes to, a \<open>str\<close>
  and not the \<open>bytes\<close> object that went in (on other bytes the encoding raises).
\<close>

theorem service_address_round_trip:
  "round_trip (Text s) =
     (case utf8_encode s of Inl e \<Rightarrow> Inl e | Inr bs \<Rightarrow> Inr (Text s)) \<and>
   round_trip (Bytes b) =
     (case utf8_decode b of Inl e \<Rightarrow> Inl e | Inr s' \<Rightarrow> Inr (Text s'))"
  by (simp only: round_trip_text round_trip_bytes)

text \<open>
  The claim as stated fails on the \<open>bytes\<close> address \<open>b"a"\<close>: what comes back is the
  \<open>str\<close> \<open>"a"\<close>.
\<close>

theorem service_address_bytes_counterexample:
  "round_trip (Bytes [0x61]) = Inr (Text [0x61]) \<and> round_trip (Bytes [0x61]) \<noteq> Inr (Bytes [0x61])"
  by (simp add: round_trip_def utf8_decode_def encode_text_def decode_service_address_def
      b64decode_def a2b_base64_def utf8_encode_cp_def emit_def b64_char_def b64_value_def
      b64_pad_def)

section \<open>The conda backend: creating and destroying environments\<close>

subsection \<open>The file system\<close>

lemma lookup_remove: "p \<noteq> [] \<Longrightarrow> lookup (remove n p) p = None"
  by (induction n p rule: remove.induct) (auto split: option.splits)


lemma rmtree_dir:
  assumes "lookup (fs w) p = Some (Dir m)" "p \<noteq> []"
  shows "rmtree p w = (w\<lparr>fs := remove (fs w) p\<rparr>, Inr ())"
  using assms by (simp add: rmtree_def)

lemma rmtree_missing:
  assumes "lookup (fs w) p = None"
  shows "rmtree p w = (w, Inl (FileNotFoundError ''No such file or directory''))"
  using assms by (simp add: rmtree_def)


subsection \<open>The steps of \<open>create\<close>\<close>

lemma env_log_fs: "fs (env_log t as k w) = fs w"
  by (simp add: env_log_def)

lemma logged_fs: "fs (logged env p w) = fs w"
  by (simp add: logged_def Let_def env_log_fs)

lemma provision_no_conda:
  "get_conda_executable h = Inl e \<Longrightarrow>
   provision h env p w = (env_log creating_template [ArgPath p] ''info'' w, Inl e)"
  by (simp add: provision_def Let_def)

lemma provision_conda:
  "get_conda_executable h = Inr exe \<Longrightarrow>
   provision h env p w = check_call h (conda_argv exe p env) (logged env p w)"
  by (simp add: provision_def logged_def Let_def)

lemma check_call_cases:
  "check_call h argv w =
     (w\<lparr>fs := fst (run_process h argv (fs w)), spawned := spawned w @ [argv]\<rparr>,
      case snd (run_process h argv (fs w)) of
        Exited status \<Rightarrow> if status = 0 then Inr () else Inl (CalledProcessError status)
      | SpawnFailed \<Rightarrow> Inl OSError
      | Interrupted \<Rightarrow> Inl KeyboardInterrupt)"
  by (simp add: check_call_def Let_def split: prod.splits proc_outcome.splits)

lemma check_call_ok:
  "snd (check_call h argv w) = Inr u \<longleftrightarrow> snd (run_process h argv (fs w)) = Exited 0"
  by (simp add: check_call_cases split: proc_outcome.splits)

lemma check_call_fs:
  "fs (fst (check_call h argv w)) = fst (run_process h argv (fs w))"
  by (simp add: check_call_cases)

lemma get_conda_executable_error:
  "get_conda_executable h = Inl e \<Longrightarrow> e = FileNotFoundError conda_not_found"
  by (simp add: get_conda_executable_def split: option.splits)

lemma provision_error_kind:
  assumes "snd (provision h env p w) = Inl e"
  shows "e = FileNotFoundError conda_not_found \<or> e = OSError \<or> e = KeyboardInterrupt \<or>
         (\<exists>status. e = CalledProcessError status)"
proof (cases "get_conda_executable h")
  case (Inl e')
  with assms get_conda_executable_error [OF Inl] show ?thesis
    by (simp add: provision_no_conda)
next
  case (Inr exe)
  with assms show ?thesis
    by (auto simp: provision_conda check_call_cases split: proc_outcome.splits if_splits)
qed

lemma rmtree_error_kind:
  assumes "snd (rmtree p w) = Inl e"
  shows "e = FileNotFoundError ''No such file or directory'' \<or> e = NotADirectoryError \<or>
         e = OSError"
  using assms by (auto simp: rmtree_def split: option.splits node.splits if_splits)

lemma rmdir_on_fail_ok:
  "snd (rmdir_on_fail p body w) = Inr v \<longleftrightarrow> snd (body w) = Inr v"
  by (auto simp: rmdir_on_fail_def split: prod.splits sum.splits)

lemma rmdir_on_fail_ok_state:
  "snd (body w) = Inr v \<Longrightarrow> rmdir_on_fail p body w = body w"
  by (auto simp: rmdir_on_fail_def split: prod.splits sum.splits)

lemma rmdir_on_fail_error_kind:
  assumes "snd (rmdir_on_fail p body w) = Inl e"
  shows "snd (body w) = Inl e \<or> (\<exists>w'. snd (rmtree p w') = Inl e)"
  using assms
  by (auto simp: rmdir_on_fail_def split: prod.splits sum.splits if_splits)
    (metis snd_conv)+

lemma create_existing:
  assumes "key h env = Inr k" "path_exists (fs w) (cache_dir h @ [k])"
  shows "create h env True w = (w, Inr (cache_dir h @ [k]))"
    and "create h env False w = (w, Inl (FileExistsError (cache_dir h @ [k])))"
  using assms by (simp_all add: create_def)

lemma create_fresh:
  assumes "key h env = Inr k" "\<not> path_exists (fs w) (cache_dir h @ [k])"
  shows "create h env exist_ok w =
     (case rmdir_on_fail (cache_dir h @ [k]) (provision h env (cache_dir h @ [k])) w of
        (w', Inl e) \<Rightarrow> (w', Inl e)
      | (w', Inr u) \<Rightarrow> (w', Inr (cache_dir h @ [k])))"
  using assms by (simp add: create_def Let_def)

lemma create_fresh_ok:
  assumes "key h env = Inr k" "\<not> path_exists (fs w) (cache_dir h @ [k])"
  shows "snd (create h env exist_ok w) = Inr p \<longleftrightarrow>
         p = cache_dir h @ [k] \<and> snd (provision h env (cache_dir h @ [k]) w) = Inr ()"
  using rmdir_on_fail_ok [of "cache_dir h @ [k]" "provision h env (cache_dir h @ [k])" w "()"]
  by (auto simp: create_fresh [OF assms] split: prod.splits sum.splits)

lemma provision_ok:
  "snd (provision h env p w) = Inr () \<longleftrightarrow>
   (\<exists>exe. get_conda_executable h = Inr exe \<and>
      snd (run_process h (conda_argv exe p env) (fs w)) = Exited 0)"
proof (cases "get_conda_executable h")
  case (Inl e)
  then show ?thesis by (simp add: provision_no_conda)
next
  case (Inr exe)
  then show ?thesis by (simp add: provision_conda check_call_ok logged_fs)
qed

lemma create_fresh_state:
  assumes "key h env = Inr k" "\<not> path_exists (fs w) (cache_dir h @ [k])"
    and "snd (provision h env (cache_dir h @ [k]) w) = Inr ()"
  shows "fst (create h env exist_ok w) = fst (provision h env (cache_dir h @ [k]) w)"
  using rmdir_on_fail_ok_state [of "provision h env (cache_dir h @ [k])" w "()" "cache_dir h @ [k]"]
    assms(3)
  by (simp add: create_fresh [OF assms(1,2)] split: prod.splits sum.splits)

subsection \<open>The concrete hosts\<close>

lemma demo_key: "key (demo_host pm) no_packages = Inr empty_digest"
  by (simp add: key_def demo_host_def no_packages_def demo_sha256_def)

lemma demo_cache: "cache_dir (demo_host pm) @ [empty_digest] = demo_slot"
  by (simp add: demo_host_def demo_slot_def)

lemma lookup_demo_slot: "lookup (cache_with slot) demo_slot = slot"
  by (simp add: cache_with_def demo_slot_def demo_cache_dir_def split: option.splits)

lemma remove_demo_slot: "remove (cache_with slot) demo_slot = cache_with None"
  by (simp add: cache_with_def demo_slot_def demo_cache_dir_def)

lemma demo_conda_found: "get_conda_executable (demo_host pm) = Inr demo_conda"
  by (simp add: get_conda_executable_def demo_host_def demo_which_def)

lemma demo_absent: "\<not> path_exists (fs (demo_world None)) (cache_dir (demo_host pm) @ [empty_digest])"
  by (simp add: path_exists_def demo_world_def demo_cache lookup_demo_slot)

lemma demo_present:
  "path_exists (fs (demo_world (Some n))) (cache_dir (demo_host pm) @ [empty_digest])"
  by (simp add: path_exists_def demo_world_def demo_cache lookup_demo_slot)

lemma demo_slot_nonempty: "demo_slot \<noteq> []"
  by (simp add: demo_slot_def)


lemma demo_provision_bare:
  "provision (demo_host bare_conda) no_packages demo_slot (demo_world None) =
     (demo_logged (Some (Dir Map.empty)), Inr ())"
  unfolding provision_conda [OF demo_conda_found]
  by (simp add: logged_def check_call_def Let_def
      env_log_def no_packages_def demo_world_def demo_logged_def demo_host_def bare_conda_def)

lemma demo_provision_working:
  "provision (demo_host working_conda) no_packages demo_slot (demo_world None) =
     (demo_logged (Some python_tree), Inr ())"
  unfolding provision_conda [OF demo_conda_found]
  by (simp add: logged_def check_call_def Let_def
      env_log_def no_packages_def demo_world_def demo_logged_def demo_host_def working_conda_def)


lemma demo_create_bare:
  "create (demo_host bare_conda) no_packages exist_ok (demo_world None) =
     (demo_logged (Some (Dir Map.empty)), Inr demo_slot)"
  by (simp add: create_fresh [OF demo_key demo_absent] demo_cache demo_provision_bare
      rmdir_on_fail_def)

lemma demo_create_working:
  "create (demo_host working_conda) no_packages exist_ok (demo_world None) =
     (demo_logged (Some python_tree), Inr demo_slot)"
  by (simp add: create_fresh [OF demo_key demo_absent] demo_cache demo_provision_working
      rmdir_on_fail_def)

lemma lookup_marker: "lookup (cache_with (Some python_tree)) (ready_marker demo_slot) = None"
  by (simp add: cache_with_def ready_marker_def demo_slot_def demo_cache_dir_def
      python_tree_def str_of_def)

lemma lookup_python:
  "lookup (cache_with (Some python_tree)) (runtime_bin demo_slot) = Some File"
  by (simp add: cache_with_def runtime_bin_def demo_slot_def demo_cache_dir_def
      python_tree_def str_of_def)

lemma lookup_no_python:
  "lookup (cache_with (Some (Dir Map.empty))) (runtime_bin demo_slot) = None"
  by (simp add: cache_with_def runtime_bin_def demo_slot_def demo_cache_dir_def)

subsection \<open>The claims about \<open>create\<close>, \<open>destroy\<close> and \<open>key\<close>\<close>




text \<open>
  Claim C4, as amended. After a successful \<open>create\<close> the returned path is the slot
  \<open>cache_dir/key\<close>, and either the slot was there already, \<open>exist_ok\<close> was set and
  nothing has changed, or the conda executable was found and the package manager
  exited with status zero, and the file system is the one the package manager left:
  \<open>create\<close> writes no marker file and does not look at the runtime binary.
\<close>

theorem create_success_state:
  assumes "key h env = Inr k" and "create h env exist_ok w = (w', Inr p)"
  shows "p = cache_dir h @ [k] \<and>
     (if path_exists (fs w) (cache_dir h @ [k]) then exist_ok \<and> w' = w
      else (\<exists>exe. get_conda_executable h = Inr exe \<and>
              run_process h (conda_argv exe (cache_dir h @ [k]) env) (fs w) = (fs w', Exited 0)))"
proof (cases "path_exists (fs w) (cache_dir h @ [k])")
  case True
  with assms create_existing [OF assms(1) True] show ?thesis by (cases exist_ok) auto
next
  case False
  let ?p = "cache_dir h @ [k]"
  from assms(2) have s: "snd (create h env exist_ok w) = Inr p" by simp
  with create_fresh_ok [OF assms(1) False] have
    p: "p = ?p" and ok: "snd (provision h env ?p w) = Inr ()" by auto
  from ok obtain exe where exe: "get_conda_executable h = Inr exe"
    and zero: "snd (run_process h (conda_argv exe ?p env) (fs w)) = Exited 0"
    by (auto simp: provision_ok)
  have "w' = fst (provision h env ?p w)"
    using create_fresh_state [OF assms(1) False ok, of exist_ok] assms(2) by simp
  then have "fs w' = fst (run_process h (conda_argv exe ?p env) (fs w))"
    by (simp add: provision_conda [OF exe] check_call_fs logged_fs)
  with zero have "run_process h (conda_argv exe ?p env) (fs w) = (fs w', Exited 0)"
    by (simp add: prod_eq_iff)
  with False p exe show ?thesis by simp
qed

theorem create_success_state_witness:
  "key (demo_host working_conda) no_packages = Inr empty_digest \<and>
   create (demo_host working_conda) no_packages False (demo_world None) =
     (demo_logged (Some python_tree), Inr demo_slot) \<and>
   \<not> path_exists (fs (demo_world None)) demo_slot \<and>
   (\<exists>exe. get_conda_executable (demo_host working_conda) = Inr exe \<and>
      run_process (demo_host working_conda) (conda_argv exe demo_slot no_packages)
        (fs (demo_world None)) = (fs (demo_logged (Some python_tree)), Exited 0))"
  using create_success_state [OF demo_key demo_create_working [of False]]
    demo_absent [of working_conda]
  by (simp add: demo_cache demo_key demo_create_working)

text \<open>
  The claim as stated fails: a package manager that installs \<open>bin/python\<close> and exits
  with status zero makes \<open>create\<close> return the slot, and no \<open>.ready\<close> file is in it.
\<close>

theorem create_without_marker_counterexample:
  "create (demo_host working_conda) no_packages False (demo_world None) =
     (demo_logged (Some python_tree), Inr demo_slot) \<and>
   lookup (fs (demo_logged (Some python_tree))) (ready_marker demo_slot) = None \<and>
   lookup (fs (demo_logged (Some python_tree))) (runtime_bin demo_slot) = Some File"
  by (simp add: demo_create_working demo_logged_def lookup_marker lookup_python)

text \<open>
  Claim C6. When the slot exists, \<open>create\<close> with \<open>exist_ok\<close> set returns its path and
  leaves the state as it was (no log, no subprocess), and \<open>create\<close> without
  \<open>exist_ok\<close> raises \<open>FileExistsError\<close>; when the slot does not exist, \<open>create\<close>
  never raises \<open>FileExistsError\<close>.
\<close>

theorem create_exists_ok:
  assumes "key h env = Inr k"
  shows "(path_exists (fs w) (cache_dir h @ [k]) \<longrightarrow>
            create h env True w = (w, Inr (cache_dir h @ [k])) \<and>
            create h env False w = (w, Inl (FileExistsError (cache_dir h @ [k])))) \<and>
         (\<not> path_exists (fs w) (cache_dir h @ [k]) \<longrightarrow>
            (\<forall>p. snd (create h env exist_ok w) \<noteq> Inl (FileExistsError p)))"
proof (intro conjI impI allI)
  assume "path_exists (fs w) (cache_dir h @ [k])"
  then show "create h env True w = (w, Inr (cache_dir h @ [k]))"
    and "create h env False w = (w, Inl (FileExistsError (cache_dir h @ [k])))"
    using create_existing [OF assms] by simp_all
next
  fix p
  let ?p = "cache_dir h @ [k]"
  assume fresh: "\<not> path_exists (fs w) ?p"
  show "snd (create h env exist_ok w) \<noteq> Inl (FileExistsError p)"
  proof
    assume "snd (create h env exist_ok w) = Inl (FileExistsError p)"
    then have "snd (rmdir_on_fail ?p (provision h env ?p) w) = Inl (FileExistsError p)"
      by (simp add: create_fresh [OF assms fresh] split: prod.splits sum.splits)
    from rmdir_on_fail_error_kind [OF this] show False
      using provision_error_kind [of h env ?p w "FileExistsError p"]
        rmtree_error_kind [of ?p _ "FileExistsError p"]
      by auto
  qed
qed

theorem create_exists_ok_witness:
  "path_exists (fs (demo_world (Some python_tree))) demo_slot \<and>
   create (demo_host working_conda) no_packages True (demo_world (Some python_tree)) =
     (demo_world (Some python_tree), Inr demo_slot) \<and>
   create (demo_host working_conda) no_packages False (demo_world (Some python_tree)) =
     (demo_world (Some python_tree), Inl (FileExistsError demo_slot)) \<and>
   spawned (demo_world (Some python_tree)) = [] \<and>
   \<not> path_exists (fs (demo_world None)) demo_slot \<and>
   snd (create (demo_host failing_conda) no_packages False (demo_world None)) \<noteq>
     Inl (FileExistsError demo_slot)"
  using
    create_exists_ok [of "demo_host working_conda" no_packages empty_digest
      "demo_world (Some python_tree)" False, OF demo_key]
    create_exists_ok [of "demo_host failing_conda" no_packages empty_digest
      "demo_world None" False, OF demo_key]
    demo_present [of python_tree working_conda] demo_absent [of failing_conda]
  by (simp add: demo_cache demo_world_def)

text \<open>
  Claim C9, as amended. When the slot does not exist, \<open>create\<close> returns successfully
  if and only if the conda executable is found and the package manager exits with
  status zero; whether the runtime binary is present plays no part.
\<close>

theorem create_succeeds_iff:
  assumes "key h env = Inr k" and "\<not> path_exists (fs w) (cache_dir h @ [k])"
  shows "(\<exists>w' p. create h env exist_ok w = (w', Inr p)) \<longleftrightarrow>
         (\<exists>exe. get_conda_executable h = Inr exe \<and>
            snd (run_process h (conda_argv exe (cache_dir h @ [k]) env) (fs w)) = Exited 0)"
proof -
  have "(\<exists>w' p. create h env exist_ok w = (w', Inr p)) \<longleftrightarrow>
        (\<exists>p. snd (create h env exist_ok w) = Inr p)"
    by (metis prod.collapse snd_conv)
  also have "\<dots> \<longleftrightarrow> snd (provision h env (cache_dir h @ [k]) w) = Inr ()"
    by (simp add: create_fresh_ok [OF assms])
  finally show ?thesis by (simp only: provision_ok)
qed

theorem create_succeeds_iff_witness:
  "key (demo_host bare_conda) no_packages = Inr empty_digest \<and>
   \<not> path_exists (fs (demo_world None)) demo_slot \<and>
   (\<exists>w' p. create (demo_host bare_conda) no_packages False (demo_world None) = (w', Inr p)) \<and>
   (\<exists>exe. get_conda_executable (demo_host bare_conda) = Inr exe \<and>
      snd (run_process (demo_host bare_conda) (conda_argv exe demo_slot no_packages)
        (fs (demo_world None))) = Exited 0)"
  using create_succeeds_iff [OF demo_key demo_absent, of bare_conda False]
    demo_absent [of bare_conda]
  by (simp add: demo_cache demo_key demo_create_bare)

text \<open>
  The claim as stated fails: a package manager that exits with status zero and leaves
  an empty prefix makes \<open>create\<close> return the slot, with no runtime binary in it.
\<close>

theorem create_without_binary_counterexample:
  "snd (run_process (demo_host bare_conda) (conda_argv demo_conda demo_slot no_packages)
     (fs (demo_world None))) = Exited 0 \<and>
   create (demo_host bare_conda) no_packages False (demo_world None) =
     (demo_logged (Some (Dir Map.empty)), Inr demo_slot) \<and>
   lookup (fs (demo_logged (Some (Dir Map.empty)))) (runtime_bin demo_slot) = None"
proof (intro conjI)
  show "snd (run_process (demo_host bare_conda) (conda_argv demo_conda demo_slot no_packages)
     (fs (demo_world None))) = Exited 0"
    by (simp add: demo_host_def bare_conda_def)
  show "create (demo_host bare_conda) no_packages False (demo_world None) =
     (demo_logged (Some (Dir Map.empty)), Inr demo_slot)"
    by (rule demo_create_bare)
  show "lookup (fs (demo_logged (Some (Dir Map.empty)))) (runtime_bin demo_slot) = None"
    by (simp add: demo_logged_def lookup_no_python)
qed

text \<open>
  Claim C7, as amended. \<open>destroy\<close> of an existing environment directory succeeds and
  removes it; a second \<open>destroy\<close> of the same path raises \<open>FileNotFoundError\<close> and
  changes nothing.
\<close>

theorem destroy_twice:
  assumes "lookup (fs w) p = Some (Dir m)" and "p \<noteq> []"
  shows "destroy p w = (w\<lparr>fs := remove (fs w) p\<rparr>, Inr ()) \<and>
         lookup (remove (fs w) p) p = None \<and>
         destroy p (w\<lparr>fs := remove (fs w) p\<rparr>) =
           (w\<lparr>fs := remove (fs w) p\<rparr>, Inl (FileNotFoundError ''No such file or directory''))"
proof -
  have gone: "lookup (remove (fs w) p) p = None" using assms(2) by (rule lookup_remove)
  then have "lookup (fs (w\<lparr>fs := remove (fs w) p\<rparr>)) p = None" by simp
  from rmtree_missing [OF this] rmtree_dir [OF assms] gone show ?thesis
    by (simp add: destroy_def)
qed

theorem destroy_twice_witness:
  "lookup (fs (demo_world (Some python_tree))) demo_slot = Some python_tree \<and>
   demo_slot \<noteq> [] \<and>
   destroy demo_slot (demo_world (Some python_tree)) = (demo_world None, Inr ()) \<and>
   lookup (fs (demo_world None)) demo_slot = None \<and>
   destroy demo_slot (demo_world None) =
     (demo_world None, Inl (FileNotFoundError ''No such file or directory''))"
proof -
  let ?m = "Map.empty(str_of ''bin'' \<mapsto> Dir (Map.empty(str_of ''python'' \<mapsto> File)))"
  have l: "lookup (fs (demo_world (Some (Dir ?m)))) demo_slot = Some (Dir ?m)"
    by (simp add: demo_world_def lookup_demo_slot)
  have w: "demo_world (Some (Dir ?m))\<lparr>fs := remove (fs (demo_world (Some (Dir ?m)))) demo_slot\<rparr> =
      demo_world None"
    by (simp add: demo_world_def remove_demo_slot)
  have n: "lookup (fs (demo_world None)) demo_slot = None"
    by (simp add: demo_world_def lookup_demo_slot)
  show ?thesis
    using destroy_twice [OF l demo_slot_nonempty] l n
    unfolding w python_tree_def
    by (simp add: demo_slot_nonempty)
qed

text \<open>
  The claim as stated fails: on an existing (empty) environment directory the first
  \<open>destroy\<close> succeeds and the second raises.
\<close>

theorem destroy_twice_counterexample:
  "snd (destroy demo_slot (demo_world (Some (Dir Map.empty)))) = Inr () \<and>
   snd (destroy demo_slot (fst (destroy demo_slot (demo_world (Some (Dir Map.empty)))))) =
     Inl (FileNotFoundError ''No such file or directory'')"
  by (simp add: destroy_def rmtree_def demo_world_def lookup_demo_slot remove_demo_slot
      demo_slot_nonempty)

text \<open>
  Claim C10. The package lists \<open>['a b']\<close> and \<open>['a', 'b']\<close> differ, and on every host
  they have the same key, the digest of the bytes of \<open>a b\<close>, hence the same slot.
\<close>

theorem conda_key_not_injective:
  "key h \<lparr>packages = [str_of ''a b'']\<rparr> = Inr (sha256_hexdigest h [0x61, 0x20, 0x62]) \<and>
   key h \<lparr>packages = [str_of ''a'', str_of ''b'']\<rparr> = Inr (sha256_hexdigest h [0x61, 0x20, 0x62]) \<and>
   [str_of ''a b''] \<noteq> [str_of ''a'', str_of ''b'']"
  by (simp add: key_def str_of_def utf8_encode_cp_def)

section \<open>The search path: \<open>python_path_for\<close>\<close>

lemma join_Cons: "join sep (x # xs) = x @ concat (map (\<lambda>y. sep @ y) xs)"
  by (induction xs arbitrary: x) simp_all

text \<open>
  Claim C8. For a primary root and a list of inherited roots, \<open>python_path_for\<close>
  returns the pure-library directory of the primary, followed by the separator and
  the pure-library directory of each inherited root, in the order given.
\<close>

theorem python_path_for_order:
  "python_path_for pathsep purelib (primary # inherited) =
     Inr (purelib primary @ concat (map (\<lambda>root. pathsep @ purelib root) inherited))"
  by (simp add: python_path_for_def join_Cons comp_def)

section \<open>The remote facade: terminal frames and logs\<close>

lemma forward_logs_Inr:
  "forward_logs from_grpc_log s ls = (s', Inr u) \<Longrightarrow>
   list_all (decodes from_grpc_log) ls \<and>
   s' = s @ map (\<lambda>raw. as_call (projr (from_grpc_log raw))) ls"
proof (induction ls arbitrary: s)
  case Nil
  then show ?case by simp
next
  case (Cons raw ls)
  from Cons.prems obtain l where l: "from_grpc_log raw = Inr l"
    and rest: "forward_logs from_grpc_log (connection_log s l) ls = (s', Inr u)"
    by (auto split: sum.splits)
  from Cons.IH [OF rest] l show ?case
    by (simp add: decodes_def connection_log_def as_call_def)
qed

lemma forward_logs_ok:
  "list_all (decodes from_grpc_log) ls \<Longrightarrow>
   forward_logs from_grpc_log s ls =
     (s @ map (\<lambda>raw. as_call (projr (from_grpc_log raw))) ls, Inr ())"
  by (induction ls arbitrary: s)
    (auto simp: decodes_def connection_log_def as_call_def split: sum.splits)

lemma stream_decodes_Nil: "stream_decodes from_grpc_log from_grpc []"
  by (simp add: stream_decodes_def streamed_logs_def terminal_frames_def)

lemma stream_decodes_Cons:
  "stream_decodes from_grpc_log from_grpc (res # rest) \<longleftrightarrow>
     list_all (decodes from_grpc_log) (logs res) \<and>
     (is_complete res \<longrightarrow> decodes from_grpc (result res)) \<and>
     stream_decodes from_grpc_log from_grpc rest"
  by (auto simp: stream_decodes_def streamed_logs_def terminal_frames_def)

lemma run_loop_Inr:
  "run_loop from_grpc_log from_grpc s rv stream = (s', Inr rv') \<Longrightarrow>
   stream_decodes from_grpc_log from_grpc stream \<and>
   s' = s @ map (\<lambda>raw. as_call (projr (from_grpc_log raw))) (streamed_logs stream) \<and>
   rv' = rv @ map (\<lambda>res. projr (from_grpc (result res))) (terminal_frames stream)"
proof (induction stream arbitrary: s rv)
  case Nil
  then show ?case by (simp add: stream_decodes_Nil streamed_logs_def terminal_frames_def)
next
  case (Cons res rest)
  from Cons.prems obtain s1 where
    fw: "forward_logs from_grpc_log s (logs res) = (s1, Inr ())"
    by (auto split: prod.splits sum.splits)
  note fl = forward_logs_Inr [OF fw]
  show ?case
  proof (cases "is_complete res")
    case True
    with Cons.prems fw obtain v where v: "from_grpc (result res) = Inr v"
      and rest: "run_loop from_grpc_log from_grpc s1 (rv @ [v]) rest = (s', Inr rv')"
      by (auto split: sum.splits)
    from Cons.IH [OF rest] fl v True show ?thesis
      by (simp add: stream_decodes_Cons decodes_def streamed_logs_def terminal_frames_def)
  next
    case False
    with Cons.prems fw have
      rest: "run_loop from_grpc_log from_grpc s1 rv rest = (s', Inr rv')" by simp
    from Cons.IH [OF rest] fl False show ?thesis
      by (simp add: stream_decodes_Cons streamed_logs_def terminal_frames_def)
  qed
qed

lemma run_loop_ok:
  "stream_decodes from_grpc_log from_grpc stream \<Longrightarrow>
   run_loop from_grpc_log from_grpc s rv stream =
     (s @ map (\<lambda>raw. as_call (projr (from_grpc_log raw))) (streamed_logs stream),
      Inr (rv @ map (\<lambda>res. projr (from_grpc (result res))) (terminal_frames stream)))"
proof (induction stream arbitrary: s rv)
  case Nil
  then show ?case by (simp add: streamed_logs_def terminal_frames_def)
next
  case (Cons res rest)
  then have l: "list_all (decodes from_grpc_log) (logs res)"
    and r: "is_complete res \<longrightarrow> decodes from_grpc (result res)"
    and d: "stream_decodes from_grpc_log from_grpc rest"
    by (simp_all add: stream_decodes_Cons)
  show ?case
    using r by (auto simp: forward_logs_ok [OF l] Cons.IH [OF d] decodes_def
        streamed_logs_def terminal_frames_def split: sum.splits)
qed

lemma run_loop_append:
  "stream_decodes from_grpc_log from_grpc pre \<Longrightarrow>
   run_loop from_grpc_log from_grpc s rv (pre @ rest) =
     run_loop from_grpc_log from_grpc
       (s @ map (\<lambda>raw. as_call (projr (from_grpc_log raw))) (streamed_logs pre))
       (rv @ map (\<lambda>res. projr (from_grpc (result res))) (terminal_frames pre)) rest"
proof (induction pre arbitrary: s rv)
  case Nil
  then show ?case by (simp add: streamed_logs_def terminal_frames_def)
next
  case (Cons res pre)
  then have l: "list_all (decodes from_grpc_log) (logs res)"
    and r: "is_complete res \<longrightarrow> decodes from_grpc (result res)"
    and d: "stream_decodes from_grpc_log from_grpc pre"
    by (simp_all add: stream_decodes_Cons)
  show ?case
    using r by (auto simp: forward_logs_ok [OF l] Cons.IH [OF d] decodes_def
        streamed_logs_def terminal_frames_def split: sum.splits)
qed

lemma run_loop_raises:
  assumes "stream_decodes from_grpc_log from_grpc pre"
    and "list_all (decodes from_grpc_log) (logs res)"
    and "is_complete res" and "from_grpc (result res) = Inl e"
  shows "snd (run_loop from_grpc_log from_grpc s rv (pre @ res # post)) = Inl e"
  using assms(3,4) by (simp add: run_loop_append [OF assms(1)] forward_logs_ok [OF assms(2)])

lemma decodes_projr: "decodes from_grpc raw \<Longrightarrow> Inr (projr (from_grpc raw)) = from_grpc raw"
  by (cases "from_grpc raw") (simp_all add: decodes_def)

lemma run_ok:
  assumes "stream_decodes from_grpc_log from_grpc stream"
  shows "snd (run from_grpc_log from_grpc s stream) =
     (case terminal_frames stream of
        [] \<Rightarrow> Inl (RuntimeError no_result_message)
      | [res] \<Rightarrow> from_grpc (result res)
      | _ \<Rightarrow> Inl (RuntimeError multiple_results_message))"
proof (cases "terminal_frames stream")
  case Nil
  then show ?thesis by (simp add: run_def run_loop_ok [OF assms])
next
  case (Cons res rest)
  show ?thesis
  proof (cases rest)
    case Nil
    with Cons assms have "decodes from_grpc (result res)"
      by (simp add: stream_decodes_def)
    from decodes_projr [OF this] Cons Nil show ?thesis
      by (simp add: run_def run_loop_ok [OF assms])
  next
    case (Cons res' rest')
    with \<open>terminal_frames stream = res # rest\<close> show ?thesis
      by (simp add: run_def run_loop_ok [OF assms])
  qed
qed

lemma run_raises:
  assumes "stream_decodes from_grpc_log from_grpc pre"
    and "list_all (decodes from_grpc_log) (logs frame)"
    and "is_complete frame" and "from_grpc (result frame) = Inl e"
  shows "snd (run from_grpc_log from_grpc s (pre @ frame # post)) = Inl e"
proof -
  obtain s1 where "run_loop from_grpc_log from_grpc s [] (pre @ frame # post) = (s1, Inl e)"
    using run_loop_raises [OF assms, of s "[]" post] by (metis prod.collapse)
  then show ?thesis by (simp add: run_def)
qed

lemma messages_differ: "no_result_message \<noteq> multiple_results_message"
  by (simp add: no_result_message_def multiple_results_message_def)

lemma demo_returned: "v \<noteq> 0 \<Longrightarrow> demo_from_grpc (returned v) = Inr (Object v)"
  by (simp add: demo_from_grpc_def from_grpc_result_def load_serialized_object_def
      returned_def demo_import_def demo_loads_def)

lemma demo_raised: "demo_from_grpc raised = Inl ZeroDivisionError"
  by (simp add: demo_from_grpc_def from_grpc_result_def load_serialized_object_def
      raised_def demo_import_def demo_loads_def)

lemma demo_logs_decode: "list_all (decodes demo_log) ls"
  by (simp add: list_all_iff decodes_def demo_log_def)

text \<open>
  Claim C1, as amended. On a response stream on which decoding raises nothing: when
  exactly one message has \<open>is_complete\<close> set, \<open>run\<close> returns the decoded result of
  that message; when none has, it raises the error whose message says that no result
  was received; when more than one has, it raises the error whose message says that
  several were received; and the two messages differ. When decoding the result of a
  terminal message raises, and nothing before it did, \<open>run\<close> raises that exception
  at that message, whatever follows it on the stream.
\<close>

theorem run_terminal_frames:
  "(stream_decodes from_grpc_log from_grpc stream \<longrightarrow>
      (terminal_frames stream = [res] \<longrightarrow>
         snd (run from_grpc_log from_grpc s stream) = from_grpc (result res) \<and>
         decodes from_grpc (result res)) \<and>
      (terminal_frames stream = [] \<longrightarrow>
         snd (run from_grpc_log from_grpc s stream) = Inl (RuntimeError no_result_message)) \<and>
      (length (terminal_frames stream) > 1 \<longrightarrow>
         snd (run from_grpc_log from_grpc s stream) =
           Inl (RuntimeError multiple_results_message))) \<and>
   no_result_message \<noteq> multiple_results_message \<and>
   (stream_decodes from_grpc_log from_grpc pre \<and>
    list_all (decodes from_grpc_log) (logs frame) \<and>
    is_complete frame \<and> from_grpc (result frame) = Inl e \<longrightarrow>
      snd (run from_grpc_log from_grpc s (pre @ frame # post)) = Inl e)"
proof (intro conjI impI)
  assume d: "stream_decodes from_grpc_log from_grpc stream"
  {
    assume t: "terminal_frames stream = [res]"
    show "snd (run from_grpc_log from_grpc s stream) = from_grpc (result res)"
      by (simp add: run_ok [OF d] t)
    show "decodes from_grpc (result res)"
      using d by (simp add: stream_decodes_def t)
  }
  {
    assume "terminal_frames stream = []"
    then show "snd (run from_grpc_log from_grpc s stream) =
        Inl (RuntimeError no_result_message)"
      by (simp add: run_ok [OF d])
  }
  {
    assume "length (terminal_frames stream) > 1"
    then show "snd (run from_grpc_log from_grpc s stream) =
        Inl (RuntimeError multiple_results_message)"
      by (auto simp: run_ok [OF d] split: list.splits)
  }
next
  show "no_result_message \<noteq> multiple_results_message" by (rule messages_differ)
next
  assume "stream_decodes from_grpc_log from_grpc pre \<and>
    list_all (decodes from_grpc_log) (logs frame) \<and>
    is_complete frame \<and> from_grpc (result frame) = Inl e"
  then show "snd (run from_grpc_log from_grpc s (pre @ frame # post)) = Inl e"
    using run_raises [of from_grpc_log from_grpc pre frame e s post] by blast
qed

lemma demo_stream_decodes:
  "stream_decodes demo_log demo_from_grpc [log_frame [''a''], terminal_frame [''b''] (returned 3)]"
  "stream_decodes demo_log demo_from_grpc [log_frame [''a'']]"
  "stream_decodes demo_log demo_from_grpc
     [terminal_frame [] (returned 1), terminal_frame [] (returned 2)]"
  by (simp_all add: stream_decodes_def demo_logs_decode terminal_frames_def log_frame_def
      terminal_frame_def decodes_def demo_returned)

theorem run_terminal_frames_witness:
  "stream_decodes demo_log demo_from_grpc
     [log_frame [''a''], terminal_frame [''b''] (returned 3)] \<and>
   terminal_frames [log_frame [''a''], terminal_frame [''b''] (returned 3)] =
     [terminal_frame [''b''] (returned 3)] \<and>
   snd (run demo_log demo_from_grpc [] [log_frame [''a''], terminal_frame [''b''] (returned 3)]) =
     Inr (Object 3) \<and>
   stream_decodes demo_log demo_from_grpc [log_frame [''a'']] \<and>
   terminal_frames [log_frame [''a'']] = [] \<and>
   snd (run demo_log demo_from_grpc [] [log_frame [''a'']]) =
     Inl (RuntimeError no_result_message) \<and>
   stream_decodes demo_log demo_from_grpc
     [terminal_frame [] (returned 1), terminal_frame [] (returned 2)] \<and>
   length (terminal_frames [terminal_frame [] (returned 1), terminal_frame [] (returned 2)]) > 1 \<and>
   snd (run demo_log demo_from_grpc []
          [terminal_frame [] (returned 1), terminal_frame [] (returned 2)]) =
     Inl (RuntimeError multiple_results_message) \<and>
   is_complete (terminal_frame [] raised) \<and>
   demo_from_grpc (result (terminal_frame [] raised)) = Inl ZeroDivisionError \<and>
   snd (run demo_log demo_from_grpc []
          ([log_frame [''a'']] @ terminal_frame [] raised # [terminal_frame [] (returned 2)])) =
     Inl ZeroDivisionError"
  using
    run_terminal_frames [where from_grpc_log = demo_log and from_grpc = demo_from_grpc
      and stream = "[log_frame [''a''], terminal_frame [''b''] (returned 3)]"
      and res = "terminal_frame [''b''] (returned 3)" and s = "[]"
      and pre = "[log_frame [''a'']]" and frame = "terminal_frame [] raised"
      and e = ZeroDivisionError and post = "[terminal_frame [] (returned 2)]"]
    run_terminal_frames [where from_grpc_log = demo_log and from_grpc = demo_from_grpc
      and stream = "[log_frame [''a'']]" and s = "[]" and pre = "[]"]
    run_terminal_frames [where from_grpc_log = demo_log and from_grpc = demo_from_grpc
      and stream = "[terminal_frame [] (returned 1), terminal_frame [] (returned 2)]"
      and s = "[]" and pre = "[]"]
    demo_stream_decodes
  by (simp add: terminal_frames_def log_frame_def terminal_frame_def demo_returned
      demo_raised demo_logs_decode)

text \<open>
  The claim as stated fails on a result that is marked as raised: with one terminal
  message \<open>run\<close> does not return but raises the \<open>ZeroDivisionError\<close> it carries, and
  with a second terminal message after it \<open>run\<close> raises the same, not the error about
  several results.
\<close>

theorem run_raised_result_counterexample:
  "terminal_frames [terminal_frame [] raised] = [terminal_frame [] raised] \<and>
   run demo_log demo_from_grpc [] [terminal_frame [] raised] = ([], Inl ZeroDivisionError) \<and>
   length (terminal_frames [terminal_frame [] raised, terminal_frame [] (returned 2)]) > 1 \<and>
   run demo_log demo_from_grpc [] [terminal_frame [] raised, terminal_frame [] (returned 2)] =
     ([], Inl ZeroDivisionError)"
  by (simp add: terminal_frames_def terminal_frame_def run_def demo_raised)

text \<open>
  Claim C2. Whenever \<open>run\<close> returns a result, every log carried by any message of the
  stream has been decoded and the sink has received all of them by then, after what
  it held before and in the order of the stream.
\<close>

theorem run_forwards_logs_in_order:
  assumes "run from_grpc_log from_grpc s stream = (s', Inr v)"
  shows "list_all (decodes from_grpc_log) (streamed_logs stream) \<and>
         s' = s @ map (\<lambda>raw. as_call (projr (from_grpc_log raw))) (streamed_logs stream)"
proof -
  from assms obtain rv where
    "run_loop from_grpc_log from_grpc s [] stream = (s', Inr rv)"
    by (auto simp: run_def split: prod.splits sum.splits if_splits)
  from run_loop_Inr [OF this] show ?thesis by (simp add: stream_decodes_def)
qed

theorem run_forwards_logs_in_order_witness:
  "run demo_log demo_from_grpc [] [log_frame [''a'', ''b''], terminal_frame [''c''] (returned 3)] =
     ([\<lparr>call_message = ''a'', call_level = ''INFO'', call_source = ''USER''\<rparr>,
       \<lparr>call_message = ''b'', call_level = ''INFO'', call_source = ''USER''\<rparr>,
       \<lparr>call_message = ''c'', call_level = ''INFO'', call_source = ''USER''\<rparr>],
      Inr (Object 3))"
proof -
  let ?stream = "[log_frame [''a'', ''b''], terminal_frame [''c''] (returned 3)]"
  have r: "run demo_log demo_from_grpc [] ?stream =
      (fst (run demo_log demo_from_grpc [] ?stream), Inr (Object 3))"
    by (simp add: run_def log_frame_def terminal_frame_def demo_log_def demo_returned
        connection_log_def)
  show ?thesis
    using run_forwards_logs_in_order [OF r] r
    by (simp add: streamed_logs_def log_frame_def terminal_frame_def demo_log_def
        as_call_def)
qed

end
